theory Spec2Isabelle
  imports Main
begin

text \<open>
  The query builders of the asset index: the filter parser (\<open>parseFilters\<close>), the
  where-clause compiler (\<open>generateWhereClause\<close>), the sort compiler
  (\<open>parseSortingOptions\<close>, \<open>generateCustomFieldSelect\<close>) and the where input of the
  simple index (\<open>getAssetsWhereInput\<close>), embedded as functions of HOL.  An exception is
  a result \<open>Inl\<close>, a line written to the console is part of the result, and what the
  platform or the ORM provides is modelled in the first two sections or taken as an
  argument.
\<close>

section \<open>JavaScript strings and values\<close>

text \<open>
  A JavaScript string is modelled as a HOL \<open>string\<close>: one \<open>char\<close> per UTF-16 code unit,
  for strings whose code units are below 256 (Latin-1).  Within that range the white space
  of \<open>String.prototype.trim\<close> and of the regular expression class \<open>\s\<close> is
  TAB, LF, VT, FF, CR, SPACE and NO-BREAK SPACE.
\<close>

definition isSpace :: "char \<Rightarrow> bool" where
  "isSpace c = (c \<in> set [CHR 0x09, CHR 0x0A, CHR 0x0B, CHR 0x0C, CHR 0x0D, CHR 0x20, CHR 0xA0])"

text \<open>\<open>s.trim()\<close>\<close>

definition trim :: "string \<Rightarrow> string" where
  "trim s = rev (dropWhile isSpace (rev (dropWhile isSpace s)))"

text \<open>\<open>s.split(c)\<close> for a one-character separator: never the empty array.\<close>

fun String_split :: "char \<Rightarrow> string \<Rightarrow> string list" where
  "String_split c [] = [[]]"
| "String_split c (x # xs) =
     (if x = c then [] # String_split c xs
      else (case String_split c xs of y # ys \<Rightarrow> (x # y) # ys | [] \<Rightarrow> [[x]]))"

text \<open>\<open>s.split(/\s+/)\<close>: the separators are the maximal runs of white space.\<close>

function split_ws :: "string \<Rightarrow> string list" where
  "split_ws [] = [[]]"
| "split_ws (x # xs) =
     (if isSpace x then [] # split_ws (dropWhile isSpace xs)
      else (case split_ws xs of y # ys \<Rightarrow> (x # y) # ys | [] \<Rightarrow> [[x]]))"
  by pat_completeness auto
termination
  by (relation "measure length") (auto simp: le_imp_less_Suc length_dropWhile_le)

text \<open>\<open>s.replace(/\s+/g, "_")\<close>\<close>

function replace_ws :: "string \<Rightarrow> string" where
  "replace_ws [] = []"
| "replace_ws (x # xs) =
     (if isSpace x then CHR ''_'' # replace_ws (dropWhile isSpace xs)
      else x # replace_ws xs)"
  by pat_completeness auto
termination
  by (relation "measure length") (auto simp: le_imp_less_Suc length_dropWhile_le)

text \<open>\<open>xs.join(sep)\<close> on an array of strings.\<close>

fun Array_join :: "string \<Rightarrow> string list \<Rightarrow> string" where
  "Array_join sep [] = []"
| "Array_join sep [x] = x"
| "Array_join sep (x # y # ys) = x @ sep @ Array_join sep (y # ys)"

text \<open>
  \<open>s.toLowerCase()\<close> on Latin-1: the letters A to Z and the accented capitals
  U+00C0 to U+00DE (but not the multiplication sign U+00D7) move up by 32.
\<close>

definition lower_char :: "char \<Rightarrow> char" where
  "lower_char c =
     (let n = (of_char c :: nat)
      in if (65 \<le> n \<and> n \<le> 90) \<or> (192 \<le> n \<and> n \<le> 222 \<and> n \<noteq> 215)
         then char_of (n + 32) else c)"

definition toLowerCase :: "string \<Rightarrow> string" where
  "toLowerCase s = map lower_char s"

text \<open>
  The JavaScript values a filter can carry.  Numbers are IEEE doubles in the program; the
  code below only creates them (through \<open>Number\<close>), stores them and hands them to the
  database driver, so their type is left open as \<open>'n\<close>.
\<close>

datatype 'n jsval =
    JUndefined
  | JString string
  | JNumber 'n
  | JBoolean bool
  | JArray "'n jsval list"

text \<open>
  Conversion of a value inside a template literal (\<open>`${v}`\<close>).  The first argument
  prints a number; an array prints its elements separated by commas, an undefined
  element as the empty string.
\<close>

fun ToString :: "('n \<Rightarrow> string) \<Rightarrow> 'n jsval \<Rightarrow> string" where
  "ToString num JUndefined = ''undefined''"
| "ToString num (JString s) = s"
| "ToString num (JNumber n) = num n"
| "ToString num (JBoolean b) = (if b then ''true'' else ''false'')"
| "ToString num (JArray xs) =
     Array_join '','' (map (\<lambda>x. if x = JUndefined then [] else ToString num x) xs)"

datatype error = TypeError

section \<open>Prisma.Sql\<close>

text \<open>
  \<open>Prisma.sql\<close>, \<open>Prisma.raw\<close>, \<open>Prisma.join\<close> and \<open>Prisma.empty\<close> belong to the ORM
  (they are the functions of the sql-template-tag package).  An \<open>Sql\<close> object holds raw
  text fragments and, between them, the values bound as query parameters.  It is modelled
  as the sequence of its pieces; \<open>sqlStrings\<close> and \<open>sqlValues\<close> read off the object's
  \<open>strings\<close> and \<open>values\<close> arrays.
\<close>

datatype 'n piece = Text string | Param "'n jsval"

type_synonym 'n sql = "'n piece list"

text \<open>What is interpolated into a template: another \<open>Sql\<close> object or a plain value.\<close>

datatype 'n arg = Sql "'n sql" | Val "'n jsval"

fun embed :: "'n arg \<Rightarrow> 'n sql" where
  "embed (Sql q) = q"
| "embed (Val v) = [Param v]"

text \<open>
  The tagged template \<open>Prisma.sql`s0${a1}s1 ... ${an}sn`\<close>: an interpolated \<open>Sql\<close> is
  spliced in with its own text and parameters, any other value becomes one parameter.
\<close>

fun Prisma_sql :: "string list \<Rightarrow> 'n arg list \<Rightarrow> 'n sql" where
  "Prisma_sql (s # ss) (a # as) = Text s # embed a @ Prisma_sql ss as"
| "Prisma_sql (s # ss) [] = [Text s]"
| "Prisma_sql [] as = []"

definition Prisma_raw :: "string \<Rightarrow> 'n sql" where
  "Prisma_raw s = [Text s]"

definition Prisma_empty :: "'n sql" where
  "Prisma_empty = Prisma_raw []"

text \<open>
  \<open>Prisma.join(values)\<close> with the default separator \<open>","\<close>: it throws a TypeError on the
  empty array.
\<close>

definition Prisma_join :: "'n arg list \<Rightarrow> error + 'n sql" where
  "Prisma_join vs =
     (if vs = [] then Inl TypeError
      else Inr (Prisma_sql ([] # replicate (length vs - 1) '','' @ [[]]) vs))"

fun sqlStrings :: "'n sql \<Rightarrow> string list" where
  "sqlStrings [] = [[]]"
| "sqlStrings (Text s # ps) =
     (case sqlStrings ps of x # xs \<Rightarrow> (s @ x) # xs | [] \<Rightarrow> [s])"
| "sqlStrings (Param v # ps) = [] # sqlStrings ps"

fun sqlValues :: "'n sql \<Rightarrow> 'n jsval list" where
  "sqlValues [] = []"
| "sqlValues (Text s # ps) = sqlValues ps"
| "sqlValues (Param v # ps) = v # sqlValues ps"

section \<open>The where-clause compiler\<close>

record 'n filter =
  name :: string
  type :: string
  operator :: string
  val :: "'n jsval"

definition addStringFilter :: "'n sql \<Rightarrow> string \<Rightarrow> string \<Rightarrow> 'n jsval \<Rightarrow> 'n sql" where
  \<open>addStringFilter whereClause field oper value =
     (if oper = ''is'' then
        Prisma_sql ['''', '' AND a."'', ''" = '', '''']
          [Sql whereClause, Sql (Prisma_raw field), Val value]
      else if oper = ''isNot'' then
        Prisma_sql ['''', '' AND a."'', ''" != '', '''']
          [Sql whereClause, Sql (Prisma_raw field), Val value]
      else whereClause)\<close>

definition addEnumFilter ::
  "'n sql \<Rightarrow> string \<Rightarrow> string \<Rightarrow> 'n jsval \<Rightarrow> error + 'n sql" where
  \<open>addEnumFilter whereClause field oper value =
     (if oper = ''is'' then
        Inr (Prisma_sql ['''', '' AND a."'', ''" = '', '''']
          [Sql whereClause, Sql (Prisma_raw field), Val value])
      else if oper = ''isNot'' then
        Inr (Prisma_sql ['''', '' AND a."'', ''" != '', '''']
          [Sql whereClause, Sql (Prisma_raw field), Val value])
      else if oper = ''in'' then
        (case value of
           JArray xs \<Rightarrow>
             (case Prisma_join (map Val xs) of
                Inl e \<Rightarrow> Inl e
              | Inr joined \<Rightarrow>
                  Inr (Prisma_sql ['''', '' AND a."'', ''" IN ('', '')'']
                    [Sql whereClause, Sql (Prisma_raw field), Sql joined]))
         | _ \<Rightarrow> Inr whereClause)
      else Inr whereClause)\<close>

definition addTextFilter ::
  "('n \<Rightarrow> string) \<Rightarrow> 'n sql \<Rightarrow> string \<Rightarrow> string \<Rightarrow> 'n jsval \<Rightarrow> 'n sql" where
  \<open>addTextFilter num whereClause field oper value =
     (if oper = ''contains'' then
        Prisma_sql ['''', '' AND a."'', ''" ILIKE '', '''']
          [Sql whereClause, Sql (Prisma_raw field),
           Val (JString (''%'' @ ToString num value @ ''%''))]
      else whereClause)\<close>

definition addNumberFilter :: "'n sql \<Rightarrow> string \<Rightarrow> string \<Rightarrow> 'n jsval \<Rightarrow> 'n sql" where
  \<open>addNumberFilter whereClause field oper value =
     (if oper = ''is'' then
        Prisma_sql ['''', '' AND a."'', ''" = '', '''']
          [Sql whereClause, Sql (Prisma_raw field), Val value]
      else if oper = ''isNot'' then
        Prisma_sql ['''', '' AND a."'', ''" != '', '''']
          [Sql whereClause, Sql (Prisma_raw field), Val value]
      else if oper = ''gt'' then
        Prisma_sql ['''', '' AND a."'', ''" > '', '''']
          [Sql whereClause, Sql (Prisma_raw field), Val value]
      else if oper = ''lt'' then
        Prisma_sql ['''', '' AND a."'', ''" < '', '''']
          [Sql whereClause, Sql (Prisma_raw field), Val value]
      else if oper = ''gte'' then
        Prisma_sql ['''', '' AND a."'', ''" >= '', '''']
          [Sql whereClause, Sql (Prisma_raw field), Val value]
      else if oper = ''lte'' then
        Prisma_sql ['''', '' AND a."'', ''" <= '', '''']
          [Sql whereClause, Sql (Prisma_raw field), Val value]
      else if oper = ''between'' then
        (case value of
           JArray [v0, v1] \<Rightarrow>
             Prisma_sql ['''', '' AND a."'', ''" BETWEEN '', '' AND '', '''']
               [Sql whereClause, Sql (Prisma_raw field), Val v0, Val v1]
         | _ \<Rightarrow> whereClause)
      else whereClause)\<close>

definition addBooleanFilter :: "'n sql \<Rightarrow> string \<Rightarrow> 'n jsval \<Rightarrow> 'n sql" where
  \<open>addBooleanFilter whereClause field value =
     Prisma_sql ['''', '' AND a."'', ''" = '', '''']
       [Sql whereClause, Sql (Prisma_raw field), Val value]\<close>

definition addDateFilter :: "'n sql \<Rightarrow> string \<Rightarrow> string \<Rightarrow> 'n jsval \<Rightarrow> 'n sql" where
  \<open>addDateFilter whereClause field oper value =
     (if oper = ''is'' then
        Prisma_sql ['''', '' AND DATE(a."'', ''") = '', '''']
          [Sql whereClause, Sql (Prisma_raw field), Val value]
      else if oper = ''isNot'' then
        Prisma_sql ['''', '' AND DATE(a."'', ''") != '', '''']
          [Sql whereClause, Sql (Prisma_raw field), Val value]
      else if oper = ''before'' then
        Prisma_sql ['''', '' AND a."'', ''" < '', '''']
          [Sql whereClause, Sql (Prisma_raw field), Val value]
      else if oper = ''after'' then
        Prisma_sql ['''', '' AND a."'', ''" > '', '''']
          [Sql whereClause, Sql (Prisma_raw field), Val value]
      else if oper = ''between'' then
        (case value of
           JArray [v0, v1] \<Rightarrow>
             Prisma_sql ['''', '' AND a."'', ''" BETWEEN '', '' AND '', '''']
               [Sql whereClause, Sql (Prisma_raw field), Val v0, Val v1]
         | _ \<Rightarrow> whereClause)
      else whereClause)\<close>

text \<open>The body of \<open>filters.forEach\<close>: the switch on the filter's type, without a default.\<close>

definition addFilter :: "('n \<Rightarrow> string) \<Rightarrow> 'n sql \<Rightarrow> 'n filter \<Rightarrow> error + 'n sql" where
  "addFilter num whereClause f =
     (if type f = ''string'' then
        Inr (addStringFilter whereClause (name f) (operator f) (val f))
      else if type f = ''enum'' then
        addEnumFilter whereClause (name f) (operator f) (val f)
      else if type f = ''text'' then
        Inr (addTextFilter num whereClause (name f) (operator f) (val f))
      else if type f = ''number'' then
        Inr (addNumberFilter whereClause (name f) (operator f) (val f))
      else if type f = ''boolean'' then
        Inr (addBooleanFilter whereClause (name f) (val f))
      else if type f = ''date'' then
        Inr (addDateFilter whereClause (name f) (operator f) (val f))
      else Inr whereClause)"

text \<open>\<open>filters.forEach\<close> over the mutable \<open>whereClause\<close>; an exception ends the loop.\<close>

fun addFilters :: "('n \<Rightarrow> string) \<Rightarrow> 'n sql \<Rightarrow> 'n filter list \<Rightarrow> error + 'n sql" where
  "addFilters num whereClause [] = Inr whereClause"
| "addFilters num whereClause (f # fs) =
     (case addFilter num whereClause f of
        Inl e \<Rightarrow> Inl e
      | Inr w \<Rightarrow> addFilters num w fs)"

definition baseClause :: "string \<Rightarrow> 'n sql" where
  \<open>baseClause organizationId =
     Prisma_sql [''WHERE a."organizationId" = '', ''''] [Val (JString organizationId)]\<close>

text \<open>The fixed text of the search condition's template literal.\<close>

definition searchTemplate :: "string list" where
  \<open>searchTemplate =
     [''\<newline>''
      @ ''        '',
      '' AND (\<newline>''
      @ ''          to_tsvector('english', a."title" || ' ' || COALESCE(a."description", ''
      @ [CHR 0x27, CHR 0x27] @ '')) @@ to_tsquery('english', '',
      '')\<newline>''
      @ ''        )\<newline>''
      @ ''      '']\<close>

text \<open>The search condition; \<open>search\<close> is \<open>None\<close> for \<open>null\<close>.\<close>

definition addSearch :: "'n sql \<Rightarrow> string option \<Rightarrow> 'n sql" where
  \<open>addSearch whereClause search =
     (case search of
        None \<Rightarrow> whereClause
      | Some s \<Rightarrow>
          if s = [] then whereClause
          else
            let words = filter (\<lambda>w. w \<noteq> []) (split_ws (trim s))
            in if length words > 0 then
                 let searchQuery = Array_join '' | '' (map (\<lambda>word. word @ '':* | '' @ word) words)
                 in Prisma_sql searchTemplate [Sql whereClause, Val (JString searchQuery)]
               else whereClause)\<close>

definition generateWhereClause ::
  "('n \<Rightarrow> string) \<Rightarrow> string \<Rightarrow> string option \<Rightarrow> 'n filter list \<Rightarrow> error + 'n sql" where
  "generateWhereClause num organizationId search filters =
     addFilters num (addSearch (baseClause organizationId) search) filters"

section \<open>The sort compiler\<close>

text \<open>
  An element of \<open>fields\<close>: the first three parts of a \<open>sortBy\<close> entry split on \<open>":"\<close>;
  a missing part is \<open>undefined\<close> (\<open>None\<close>).
\<close>

record sortField =
  name :: string
  direction :: "string option"
  fieldType :: "string option"

definition parseSortField :: "string \<Rightarrow> sortField" where
  "parseSortField s =
     (case String_split (CHR '':'') s of
        [] \<Rightarrow> \<lparr>name = [], direction = None, fieldType = None\<rparr>
      | [n] \<Rightarrow> \<lparr>name = n, direction = None, fieldType = None\<rparr>
      | [n, d] \<Rightarrow> \<lparr>name = n, direction = Some d, fieldType = None\<rparr>
      | n # d # t # rest \<Rightarrow> \<lparr>name = n, direction = Some d, fieldType = Some t\<rparr>)"

text \<open>A possibly undefined string inside a template literal.\<close>

definition templateString :: "string option \<Rightarrow> string" where
  "templateString v = (case v of None \<Rightarrow> ''undefined'' | Some s \<Rightarrow> s)"

definition directAssetFields :: "(string \<times> string) list" where
  "directAssetFields =
     [(''id'', ''assetId''),
      (''name'', ''assetTitle''),
      (''valuation'', ''assetValue''),
      (''status'', ''assetStatus''),
      (''description'', ''assetDescription''),
      (''createdAt'', ''assetCreatedAt''),
      (''availableToBook'', ''assetAvailableToBook'')]"

text \<open>
  \<open>directAssetFields\<close> is an object literal, so its prototype is \<open>Object.prototype\<close>, and
  the \<open>in\<close> operator and the property read \<open>directAssetFields[k]\<close> both follow the prototype
  chain.  The table lists the properties of \<open>Object.prototype\<close> (ECMA-262, with Annex B)
  and, for each, the text its value has inside a template literal: the source text of a
  built-in function as Node.js (V8) prints it, and \<open>[object Object]\<close> for the prototype
  object that \<open>__proto__\<close> reads.
\<close>

definition Object_prototype :: "(string \<times> string) list" where
  "Object_prototype =
     [(''constructor'', ''function Object() { [native code] }''),
      (''__defineGetter__'', ''function __defineGetter__() { [native code] }''),
      (''__defineSetter__'', ''function __defineSetter__() { [native code] }''),
      (''hasOwnProperty'', ''function hasOwnProperty() { [native code] }''),
      (''__lookupGetter__'', ''function __lookupGetter__() { [native code] }''),
      (''__lookupSetter__'', ''function __lookupSetter__() { [native code] }''),
      (''isPrototypeOf'', ''function isPrototypeOf() { [native code] }''),
      (''propertyIsEnumerable'', ''function propertyIsEnumerable() { [native code] }''),
      (''toString'', ''function toString() { [native code] }''),
      (''valueOf'', ''function valueOf() { [native code] }''),
      (''__proto__'', ''[object Object]''),
      (''toLocaleString'', ''function toLocaleString() { [native code] }'')]"

text \<open>\<open>k in directAssetFields\<close> and \<open>`${directAssetFields[k]}`\<close>.\<close>

definition in_directAssetFields :: "string \<Rightarrow> bool" where
  "in_directAssetFields k = (map_of (directAssetFields @ Object_prototype) k \<noteq> None)"

definition get_directAssetFields :: "string \<Rightarrow> string" where
  "get_directAssetFields k =
     templateString (map_of (directAssetFields @ Object_prototype) k)"

definition startsWith :: "string \<Rightarrow> string \<Rightarrow> bool" where
  "startsWith s p = (take (length p) s = p)"

record customFieldSorting =
  name :: string
  valueKey :: string
  alias' :: string
  fieldType :: "string option"

text \<open>The state of the loop over \<open>fields\<close>, with the lines written by \<open>console.warn\<close>.\<close>

record sortState =
  orderByParts :: "string list"
  customFieldSortings :: "customFieldSorting list"
  warnings :: "string list"

definition sortStep :: "sortState \<Rightarrow> sortField \<Rightarrow> sortState" where
  \<open>sortStep st field =
     (if in_directAssetFields (sortField.name field) then
        let columnName = get_directAssetFields (sortField.name field)
        in st\<lparr>orderByParts := orderByParts st
               @ [''"'' @ columnName @ ''" '' @ templateString (direction field)]\<rparr>
      else if sortField.name field = ''kit'' then
        st\<lparr>orderByParts := orderByParts st
               @ [''"kitName" '' @ templateString (direction field)]\<rparr>
      else if sortField.name field = ''category'' then
        st\<lparr>orderByParts := orderByParts st
               @ [''"categoryName" '' @ templateString (direction field)]\<rparr>
      else if sortField.name field = ''location'' then
        st\<lparr>orderByParts := orderByParts st
               @ [''"locationName" '' @ templateString (direction field)]\<rparr>
      else if sortField.name field = ''custody'' then
        st\<lparr>orderByParts := orderByParts st
               @ [''custody->>'name' '' @ templateString (direction field)]\<rparr>
      else if startsWith (sortField.name field) ''cf_'' then
        let customFieldName = drop 3 (sortField.name field);
            alias = ''cf_'' @ replace_ws customFieldName
        in st\<lparr>customFieldSortings := customFieldSortings st
                 @ [\<lparr>name = customFieldName, valueKey = ''raw'', alias' = alias,
                      fieldType = sortField.fieldType field\<rparr>],
               orderByParts := orderByParts st
                 @ [alias @ '' '' @ templateString (direction field)]\<rparr>
      else
        st\<lparr>warnings := warnings st @ [''Unknown sort field: '' @ sortField.name field]\<rparr>)\<close>

record sortingOptions =
  orderByClause :: string
  customFieldSortings :: "customFieldSorting list"

text \<open>The result, paired with what was written to the console.\<close>

definition parseSortingOptions :: "string list \<Rightarrow> sortingOptions \<times> string list" where
  "parseSortingOptions sortBy =
     (let fields = map parseSortField sortBy;
          st = foldl sortStep
                 \<lparr>orderByParts = [], customFieldSortings = [], warnings = []\<rparr> fields;
          orderByClause =
            (if length (orderByParts st) > 0
             then ''ORDER BY '' @ Array_join '', '' (orderByParts st) else [])
      in (\<lparr>orderByClause = orderByClause,
           customFieldSortings = sortState.customFieldSortings st\<rparr>,
          warnings st))"

text \<open>The fixed text of the subquery's template literal.\<close>

definition customFieldTemplate :: "string list" where
  \<open>customFieldTemplate =
     [''(\<newline>''
      @ ''      SELECT \<newline>''
      @ ''        CASE '',
      ''\<newline>''
      @ ''          WHEN 'DATE' THEN \<newline>''
      @ ''            (acfv.value->>'valueDate')::timestamp::text\<newline>''
      @ ''          WHEN 'NUMBER' THEN \<newline>''
      @ ''            (acfv.value->>'raw')::numeric::text\<newline>''
      @ ''          WHEN 'BOOLEAN' THEN \<newline>''
      @ ''            (acfv.value->>'valueBoolean')::boolean::text\<newline>''
      @ ''          ELSE\<newline>''
      @ ''            acfv.value->>'raw'\<newline>''
      @ ''        END\<newline>''
      @ ''      FROM public."AssetCustomFieldValue" acfv\<newline>''
      @ ''      JOIN public."CustomField" cf ON acfv."customFieldId" = cf.id\<newline>''
      @ ''      WHERE acfv."assetId" = a.id AND cf.name = '',
      ''\<newline>''
      @ ''    ) AS '',
      '''']\<close>

text \<open>The subquery of one custom field, the callback of \<open>customFieldSortings.map\<close>.\<close>

definition customFieldSubquery :: "customFieldSorting \<Rightarrow> 'n sql" where
  \<open>customFieldSubquery cf =
     Prisma_sql customFieldTemplate
       [Val (case customFieldSorting.fieldType cf of
               None \<Rightarrow> JUndefined | Some t \<Rightarrow> JString t),
        Val (JString (customFieldSorting.name cf)),
        Sql (Prisma_raw (alias' cf))]\<close>

definition generateCustomFieldSelect :: "customFieldSorting list \<Rightarrow> error + 'n sql" where
  "generateCustomFieldSelect cfs =
     (if length cfs = 0 then Inr Prisma_empty
      else
        (case Prisma_join (map (\<lambda>cf. Sql (customFieldSubquery cf)) cfs) of
           Inl e \<Rightarrow> Inl e
         | Inr joined \<Rightarrow> Inr (Prisma_sql ['', '', ''''] [Sql joined])))"

section \<open>The filter parser\<close>

definition getFilterFieldType :: "string \<Rightarrow> string" where
  "getFilterFieldType fieldName =
     (if fieldName = ''id'' then ''string''
      else if fieldName = ''status'' then ''enum''
      else if fieldName = ''description'' then ''text''
      else if fieldName = ''valuation'' then ''number''
      else if fieldName = ''availableToBook'' then ''boolean''
      else if fieldName = ''createdAt'' then ''date''
      else ''string'')"

text \<open>A string that may be \<open>undefined\<close>, as a JavaScript value.\<close>

definition jsOfString :: "string option \<Rightarrow> 'n jsval" where
  "jsOfString v = (case v of None \<Rightarrow> JUndefined | Some s \<Rightarrow> JString s)"

text \<open>
  \<open>parseFilterValue\<close>.  Its \<open>value\<close> is \<open>undefined\<close> (\<open>None\<close>) when the parameter had no
  \<open>":"\<close>; a method call on \<open>undefined\<close> throws a TypeError.  \<open>Number\<close>, the conversion of
  the platform, is the first argument.
\<close>

definition parseFilterValue ::
  "('n jsval \<Rightarrow> 'n) \<Rightarrow> string \<Rightarrow> string \<Rightarrow> string option \<Rightarrow> error + 'n jsval" where
  "parseFilterValue Number field oper value =
     (if field = ''valuation'' then
        (if oper = ''between'' then
           (case value of
              None \<Rightarrow> Inl TypeError
            | Some v \<Rightarrow>
                Inr (JArray (map (\<lambda>s. JNumber (Number (JString s)))
                                 (String_split (CHR '','') v))))
         else Inr (JNumber (Number (jsOfString value))))
      else if field = ''availableToBook'' then
        (case value of
           None \<Rightarrow> Inl TypeError
         | Some v \<Rightarrow> Inr (JBoolean (toLowerCase v = ''true'')))
      else if field = ''createdAt'' then
        (if oper = ''between'' then
           (case value of
              None \<Rightarrow> Inl TypeError
            | Some v \<Rightarrow> Inr (JArray (map JString (String_split (CHR '','') v))))
         else Inr (jsOfString value))
      else if field = ''status'' then
        (if oper = ''in'' then
           (case value of
              None \<Rightarrow> Inl TypeError
            | Some v \<Rightarrow> Inr (JArray (map JString (String_split (CHR '','') v))))
         else Inr (jsOfString value))
      else Inr (jsOfString value))"

text \<open>
  The callback of \<open>searchParams.forEach\<close>, for one parameter \<open>(key, value)\<close>:
  \<open>[operator, filterValue] = value.split(":")\<close> takes the first two parts.
\<close>

definition parseFilter ::
  "('n jsval \<Rightarrow> 'n) \<Rightarrow> string \<times> string \<Rightarrow> error + 'n filter" where
  "parseFilter Number kv =
     (let key = fst kv;
          parts = String_split (CHR '':'') (snd kv);
          oper = (case parts of [] \<Rightarrow> [] | p # ps \<Rightarrow> p);
          filterValue = (case parts of p # q # qs \<Rightarrow> Some q | _ \<Rightarrow> None)
      in case parseFilterValue Number key oper filterValue of
           Inl e \<Rightarrow> Inl e
         | Inr v \<Rightarrow>
             Inr \<lparr>filter.name = key, type = getFilterFieldType key, operator = oper, val = v\<rparr>)"

fun parseFilter_forEach ::
  "('n jsval \<Rightarrow> 'n) \<Rightarrow> 'n filter list \<Rightarrow> (string \<times> string) list \<Rightarrow> error + 'n filter list" where
  "parseFilter_forEach Number filters [] = Inr filters"
| "parseFilter_forEach Number filters (kv # kvs) =
     (case parseFilter Number kv of
        Inl e \<Rightarrow> Inl e
      | Inr f \<Rightarrow> parseFilter_forEach Number (filters @ [f]) kvs)"

text \<open>
  \<open>parseFilters\<close>.  \<open>URLSearchParams\<close> is the platform's parser of a query string into its
  list of (key, value) parameters, in order.
\<close>

definition parseFilters ::
  "(string \<Rightarrow> (string \<times> string) list) \<Rightarrow> ('n jsval \<Rightarrow> 'n) \<Rightarrow> string
     \<Rightarrow> error + 'n filter list" where
  "parseFilters URLSearchParams Number filtersString =
     (let searchParams = URLSearchParams filtersString
      in parseFilter_forEach Number [] searchParams)"

section \<open>The where input of the simple index\<close>

text \<open>The conditions of a \<open>Prisma.AssetWhereInput\<close> that \<open>getAssetsWhereInput\<close> builds.\<close>

datatype stringCond = ContainsMode string string

datatype idCond = In "string list"

datatype tagsCond = SomeIdIn "string list"

datatype locationCond = IdIn "string list"

text \<open>The alternatives that are put into the \<open>OR\<close> array.\<close>

datatype assetAlt =
    CategoryIdIn "string list"
  | CategoryIdNull
  | TagsSomeIdIn "string list"
  | TagsNone
  | LocationIdIn "string list"
  | LocationIdNull
  | CustodyTeamMemberIdIn "string list"
  | CustodyCustodianUserIdIn "string list"
  | BookingsSomeCustodianTeamMemberIdIn "string list"
  | BookingsSomeCustodianUserIdIn "string list"
  | CustodyNull

record assetWhereInput =
  organizationId :: string
  title :: "stringCond option"
  status :: "string option"
  categoryId :: "idCond option"
  tags :: "tagsCond option"
  location :: "locationCond option"
  OR :: "assetAlt list option"

text \<open>
  What \<open>getParamsValues\<close> returns, as far as it is read here; an absent array is \<open>None\<close>.
\<close>

record paramsValues =
  categoriesIds :: "string list option"
  locationIds :: "string list option"
  tagsIds :: "string list option"
  search :: "string option"
  teamMemberIds :: "string list option"

text \<open>\<open>where.OR ?? []\<close>\<close>

definition OR_or_empty :: "assetWhereInput \<Rightarrow> assetAlt list" where
  "OR_or_empty w = (case OR w of None \<Rightarrow> [] | Some alts \<Rightarrow> alts)"

text \<open>The five conditional blocks of \<open>getAssetsWhereInput\<close>, each updating \<open>where\<close>.\<close>

definition whereSearch :: "paramsValues \<Rightarrow> assetWhereInput \<Rightarrow> assetWhereInput" where
  "whereSearch pv w =
     (case search pv of
        None \<Rightarrow> w
      | Some s \<Rightarrow>
          if s = [] then w
          else w\<lparr>title := Some (ContainsMode (trim (toLowerCase s)) ''insensitive'')\<rparr>)"

definition whereStatus :: "string option \<Rightarrow> assetWhereInput \<Rightarrow> assetWhereInput" where
  "whereStatus st w =
     (case st of
        None \<Rightarrow> w
      | Some s \<Rightarrow> if s = [] then w else w\<lparr>status := Some s\<rparr>)"

definition whereCategories :: "paramsValues \<Rightarrow> assetWhereInput \<Rightarrow> assetWhereInput" where
  "whereCategories pv w =
     (case categoriesIds pv of
        None \<Rightarrow> w
      | Some ids \<Rightarrow>
          if length ids > 0 then
            (if ''uncategorized'' \<in> set ids
             then w\<lparr>OR := Some [CategoryIdIn ids, CategoryIdNull]\<rparr>
             else w\<lparr>categoryId := Some (In ids)\<rparr>)
          else w)"

definition whereTags :: "paramsValues \<Rightarrow> assetWhereInput \<Rightarrow> assetWhereInput" where
  "whereTags pv w =
     (case tagsIds pv of
        None \<Rightarrow> w
      | Some ids \<Rightarrow>
          if length ids > 0 then
            (if ''untagged'' \<in> set ids
             then w\<lparr>OR := Some (OR_or_empty w @ [TagsSomeIdIn ids, TagsNone])\<rparr>
             else w\<lparr>tags := Some (SomeIdIn ids)\<rparr>)
          else w)"

definition whereLocations :: "paramsValues \<Rightarrow> assetWhereInput \<Rightarrow> assetWhereInput" where
  "whereLocations pv w =
     (case locationIds pv of
        None \<Rightarrow> w
      | Some ids \<Rightarrow>
          if length ids > 0 then
            (if ''without-location'' \<in> set ids
             then w\<lparr>OR := Some (OR_or_empty w @ [LocationIdIn ids, LocationIdNull])\<rparr>
             else w\<lparr>location := Some (IdIn ids)\<rparr>)
          else w)"

definition whereTeamMembers :: "paramsValues \<Rightarrow> assetWhereInput \<Rightarrow> assetWhereInput" where
  "whereTeamMembers pv w =
     (case teamMemberIds pv of
        None \<Rightarrow> w
      | Some ids \<Rightarrow>
          if length ids \<noteq> 0 then
            w\<lparr>OR := Some (OR_or_empty w
                 @ [CustodyTeamMemberIdIn ids,
                    CustodyCustodianUserIdIn ids,
                    BookingsSomeCustodianTeamMemberIdIn ids,
                    BookingsSomeCustodianUserIdIn ids]
                 @ (if ''without-custody'' \<in> set ids then [CustodyNull] else []))\<rparr>
          else w)"

text \<open>
  \<open>getAssetsWhereInput\<close>.  \<open>URLSearchParams\<close> is the platform's parser and \<open>getParamsValues\<close>
  the helper imported from \<open>~/utils/list\<close>; both are arguments.  \<open>searchParams.get("status")\<close>
  is the value of the first parameter named \<open>status\<close>, or \<open>null\<close>.
\<close>

definition getAssetsWhereInput ::
  "(string \<Rightarrow> (string \<times> string) list) \<Rightarrow> ((string \<times> string) list \<Rightarrow> paramsValues)
     \<Rightarrow> string \<Rightarrow> string option \<Rightarrow> assetWhereInput" where
  "getAssetsWhereInput URLSearchParams getParamsValues orgId currentSearchParams =
     (let w = \<lparr>organizationId = orgId, title = None, status = None,
                categoryId = None, tags = None, location = None, OR = None\<rparr>
      in case currentSearchParams of
           None \<Rightarrow> w
         | Some csp \<Rightarrow>
             if csp = [] then w
             else
               let searchParams = URLSearchParams csp;
                   pv = getParamsValues searchParams;
                   st = (if map_of searchParams ''status'' = Some ''ALL'' then None
                         else map_of searchParams ''status'')
               in whereTeamMembers pv
                    (whereLocations pv
                      (whereTags pv
                        (whereCategories pv
                          (whereStatus st
                            (whereSearch pv w))))))"

section \<open>Notions used in the statements\<close>

text \<open>
  The statement text of an \<open>Sql\<close> object, with \<open>?\<close> in the place of each bound
  parameter (its \<open>sql\<close> property).
\<close>

definition sqlText :: "'n sql \<Rightarrow> string" where
  "sqlText q = concat (map (\<lambda>p. case p of Text s \<Rightarrow> s | Param v \<Rightarrow> ''?'') q)"

text \<open>
  One step of the loop over the filters, once an exception may have ended it.
\<close>

definition addFilterE :: "('n \<Rightarrow> string) \<Rightarrow> error + 'n sql \<Rightarrow> 'n filter \<Rightarrow> error + 'n sql" where
  "addFilterE num acc f = (case acc of Inl e \<Rightarrow> Inl e | Inr w \<Rightarrow> addFilter num w f)"

text \<open>
  The search string contains a word: some character of it is not white space.
\<close>

definition hasWord :: "string \<Rightarrow> bool" where
  "hasWord s = list_ex (\<lambda>c. \<not> isSpace c) s"

text \<open>
  The search is given and contains a word.
\<close>

definition hasWords :: "string option \<Rightarrow> bool" where
  "hasWords srch = (case srch of None \<Rightarrow> False | Some s \<Rightarrow> hasWord s)"

text \<open>
  \<open>Array.isArray(v)\<close>
\<close>

definition isArray :: "'n jsval \<Rightarrow> bool" where
  "isArray v = (case v of JArray xs \<Rightarrow> True | _ \<Rightarrow> False)"

text \<open>
  \<open>Array.isArray(v) && v.length === 2\<close>
\<close>

definition isPair :: "'n jsval \<Rightarrow> bool" where
  "isPair v = (case v of JArray xs \<Rightarrow> length xs = 2 | _ \<Rightarrow> False)"

text \<open>Pieces of SQL put one after the other with a separator text between them.\<close>

fun commaJoin :: "string \<Rightarrow> 'n sql list \<Rightarrow> 'n sql" where
  "commaJoin sep [] = []"
| "commaJoin sep [q] = q"
| "commaJoin sep (q # r # qs) = q @ Text sep # commaJoin sep (r # qs)"

text \<open>
  The column of a filter as it stands in the raw text: the field name between \<open>a."\<close> and
  \<open>"\<close>, inside \<open>DATE( )\<close> for the operators \<open>is\<close> and \<open>isNot\<close> of a date filter.
\<close>

definition columnText :: "'n filter \<Rightarrow> string" where
  \<open>columnText f =
     (if type f = ''date'' \<and> (operator f = ''is'' \<or> operator f = ''isNot'')
      then ''DATE(a."'' @ filter.name f @ ''")''
      else ''a."'' @ filter.name f @ ''"'')\<close>

text \<open>
  The SQL comparison that a filter operator stands for, by filter type.
\<close>

definition comparisonTable :: "((string \<times> string) \<times> string) list" where
  "comparisonTable =
     [((''string'', ''is''), ''=''), ((''string'', ''isNot''), ''!=''),
      ((''enum'', ''is''), ''=''), ((''enum'', ''isNot''), ''!=''),
      ((''number'', ''is''), ''=''), ((''number'', ''isNot''), ''!=''),
      ((''number'', ''gt''), ''>''), ((''number'', ''lt''), ''<''),
      ((''number'', ''gte''), ''>=''), ((''number'', ''lte''), ''<=''),
      ((''date'', ''is''), ''=''), ((''date'', ''isNot''), ''!=''),
      ((''date'', ''before''), ''<''), ((''date'', ''after''), ''>'')]"

text \<open>
  What follows the column in the one condition a filter compiles to, as the text up to the
  first bound value and the pieces after it, or \<open>None\<close> when the filter adds no condition:
  a comparison with the bound value; for a boolean filter the equality with the bound
  value, whatever the operator; for \<open>contains\<close> on a text filter \<open>ILIKE\<close> with the bound
  pattern \<open>%value%\<close>; for \<open>between\<close> on a number or a date with an array of two elements
  \<open>BETWEEN ? AND ?\<close> with the two elements bound; for \<open>in\<close> on an enum with a non-empty
  array \<open>IN (?,...,?)\<close> with the elements bound.
\<close>

definition conditionOf :: "('n \<Rightarrow> string) \<Rightarrow> 'n filter \<Rightarrow> (string \<times> 'n sql) option" where
  \<open>conditionOf num f =
     (if type f = ''boolean'' then Some ('' = '', [Param (val f)])
      else
        (case map_of comparisonTable (type f, operator f) of
           Some cmp \<Rightarrow> Some ('' '' @ cmp @ '' '', [Param (val f)])
         | None \<Rightarrow>
             if type f = ''text'' \<and> operator f = ''contains''
               then Some ('' ILIKE '', [Param (JString (''%'' @ ToString num (val f) @ ''%''))])
             else if (type f = ''number'' \<or> type f = ''date'') \<and> operator f = ''between''
               then (case val f of
                       JArray xs \<Rightarrow>
                         if length xs = 2
                         then Some ('' BETWEEN '', [Param (xs ! 0), Text '' AND '', Param (xs ! 1)])
                         else None
                     | _ \<Rightarrow> None)
             else if type f = ''enum'' \<and> operator f = ''in''
               then (case val f of
                       JArray xs \<Rightarrow>
                         if xs = [] then None
                         else Some ('' IN ('',
                                    commaJoin '','' (map (\<lambda>x. [Param x]) xs) @ [Text '')''])
                     | _ \<Rightarrow> None)
             else None))\<close>

text \<open>
  The clause \<open>w\<close> followed by the condition of the filter, if it has one: \<open>AND\<close>, the
  column, and what follows the column.
\<close>

definition compiled :: "('n \<Rightarrow> string) \<Rightarrow> 'n sql \<Rightarrow> 'n filter \<Rightarrow> 'n sql" where
  "compiled num w f =
     (case conditionOf num f of
        None \<Rightarrow> w
      | Some (cmp, rest) \<Rightarrow> w @ Text ('' AND '' @ columnText f @ cmp) # rest)"

text \<open>The same \<open>Sql\<close> object: the same \<open>strings\<close> array and the same \<open>values\<close> array.\<close>

definition sameSql :: "'n sql \<Rightarrow> 'n sql \<Rightarrow> bool" where
  "sameSql a b = (sqlStrings a = sqlStrings b \<and> sqlValues a = sqlValues b)"

text \<open>The one filter on which the compiler throws: \<open>in\<close> on an enum with the empty array.\<close>

definition enumThrows :: "'n filter \<Rightarrow> bool" where
  "enumThrows f = (type f = ''enum'' \<and> operator f = ''in'' \<and> val f = JArray [])"

text \<open>
  The filter types \<open>generateWhereClause\<close> has a case for.
\<close>

definition filterTypes :: "string list" where
  "filterTypes = [''string'', ''enum'', ''text'', ''number'', ''boolean'', ''date'']"

text \<open>
  The \<open>case\<close> labels of the switch on the operator in the \<open>add*Filter\<close> function of each
  type.  \<open>addBooleanFilter\<close> takes no operator and has no switch.
\<close>

definition operatorCases :: "string \<Rightarrow> string list" where
  "operatorCases ty =
     (if ty = ''string'' then [''is'', ''isNot'']
      else if ty = ''enum'' then [''is'', ''isNot'', ''in'']
      else if ty = ''text'' then [''contains'']
      else if ty = ''number'' then [''is'', ''isNot'', ''gt'', ''lt'', ''gte'', ''lte'', ''between'']
      else if ty = ''date'' then [''is'', ''isNot'', ''before'', ''after'', ''between'']
      else [])"

text \<open>
  A filter the compiler does not recognise: its type has a switch on the operator and the
  operator is none of its cases; or it is a \<open>between\<close> on a number or a date without an
  array of two elements; or an \<open>in\<close> on an enum without an array; or its type is none of
  the six.
\<close>

definition malformed :: "'n filter \<Rightarrow> bool" where
  "malformed f =
     (list_ex (\<lambda>ty. type f = ty) [''string'', ''enum'', ''text'', ''number'', ''date'']
        \<and> \<not> list_ex (\<lambda>oper. operator f = oper) (operatorCases (type f))
      \<or> (type f = ''number'' \<or> type f = ''date'')
           \<and> operator f = ''between'' \<and> \<not> isPair (val f)
      \<or> type f = ''enum'' \<and> operator f = ''in'' \<and> \<not> isArray (val f)
      \<or> \<not> list_ex (\<lambda>ty. type f = ty) filterTypes)"

text \<open>
  Two \<open>Sql\<close> objects with the same raw text, piece by piece: they differ at most in the
  values of their parameters.
\<close>

definition samePiece :: "'n piece \<Rightarrow> 'n piece \<Rightarrow> bool" where
  "samePiece p q =
     (case p of
        Text s \<Rightarrow> q = Text s
      | Param v \<Rightarrow> (case q of Param v' \<Rightarrow> True | Text t \<Rightarrow> False))"

definition sameText :: "'n sql \<Rightarrow> 'n sql \<Rightarrow> bool" where
  "sameText a b = list_all2 samePiece a b"

text \<open>
  What the compiler inspects of a filter's value: whether it is an array, and of which
  length.
\<close>

definition shape :: "'n jsval \<Rightarrow> nat option" where
  "shape v = (case v of JArray xs \<Rightarrow> Some (length xs) | _ \<Rightarrow> None)"

text \<open>
  Two filters that differ at most in the content of their values.
\<close>

definition sameShape :: "'n filter \<Rightarrow> 'n filter \<Rightarrow> bool" where
  "sameShape f g =
     (filter.name f = filter.name g \<and> type f = type g \<and> operator f = operator g
      \<and> shape (val f) = shape (val g))"

text \<open>
  What one element of \<open>fields\<close> contributes to the loop of \<open>parseSortingOptions\<close>: the
  parts it pushes to \<open>orderByParts\<close>, the records it pushes to \<open>customFieldSortings\<close> and the
  lines it writes with \<open>console.warn\<close>.
\<close>

definition partsOf :: "sortField \<Rightarrow> string list" where
  "partsOf field =
     orderByParts
       (sortStep \<lparr>orderByParts = [], customFieldSortings = [], warnings = []\<rparr> field)"

definition sortingsOf :: "sortField \<Rightarrow> customFieldSorting list" where
  "sortingsOf field =
     sortState.customFieldSortings
       (sortStep \<lparr>orderByParts = [], customFieldSortings = [], warnings = []\<rparr> field)"

definition warningsOf :: "sortField \<Rightarrow> string list" where
  "warningsOf field =
     warnings
       (sortStep \<lparr>orderByParts = [], customFieldSortings = [], warnings = []\<rparr> field)"

text \<open>The parameters of one subquery: the field type, then the field name.\<close>

definition subqueryValues :: "customFieldSorting \<Rightarrow> 'n jsval list" where
  "subqueryValues cf =
     [case customFieldSorting.fieldType cf of None \<Rightarrow> JUndefined | Some t \<Rightarrow> JString t,
      JString (customFieldSorting.name cf)]"

text \<open>
  \<open>URLSearchParams\<close> on a query string without a leading \<open>?\<close>, percent escapes or plus
  signs: the parameters are the non-empty pieces between \<open>&\<close>, each split at its first
  \<open>=\<close>.  It serves as the platform's parser at concrete inputs.
\<close>

definition plainSearchParams :: "string \<Rightarrow> (string \<times> string) list" where
  "plainSearchParams s =
     map (\<lambda>p. (takeWhile (\<lambda>c. c \<noteq> CHR ''='') p, drop 1 (dropWhile (\<lambda>c. c \<noteq> CHR ''='') p)))
       (filter (\<lambda>p. p \<noteq> []) (String_split (CHR ''&'') s))"

text \<open>The text of a parameter value before its first \<open>":"\<close>.\<close>

definition operatorOf :: "string \<Rightarrow> string" where
  "operatorOf v = takeWhile (\<lambda>c. c \<noteq> CHR '':'') v"

text \<open>
  The text of a parameter value between its first and its second \<open>":"\<close> (or its end);
  undefined when the value has no \<open>":"\<close>.
\<close>

definition valueTextOf :: "string \<Rightarrow> string option" where
  "valueTextOf v =
     (if CHR '':'' \<in> set v
      then Some (takeWhile (\<lambda>c. c \<noteq> CHR '':'') (drop 1 (dropWhile (\<lambda>c. c \<noteq> CHR '':'') v)))
      else None)"

text \<open>The fixed mapping from field names to filter types; any other name is a string.\<close>

definition fieldTypeTable :: "(string \<times> string) list" where
  "fieldTypeTable =
     [(''id'', ''string''), (''status'', ''enum''), (''description'', ''text''),
      (''valuation'', ''number''), (''availableToBook'', ''boolean''), (''createdAt'', ''date'')]"

text \<open>
  The parameters on which \<open>parseFilterValue\<close> calls a method of \<open>undefined\<close>: an
  \<open>availableToBook\<close> whose value has no \<open>":"\<close>, a \<open>valuation\<close> or \<open>createdAt\<close> whose value is
  just \<open>between\<close>, a \<open>status\<close> whose value is just \<open>in\<close>.
\<close>

definition throwsOn :: "string \<times> string \<Rightarrow> bool" where
  "throwsOn kv =
     (fst kv = ''availableToBook'' \<and> \<not> list_ex (\<lambda>c. c = CHR '':'') (snd kv)
      \<or> (fst kv = ''valuation'' \<or> fst kv = ''createdAt'') \<and> snd kv = ''between''
      \<or> fst kv = ''status'' \<and> snd kv = ''in'')"

text \<open>
  The filter value as the specification words it, from the field, the operator and the
  value text: \<open>valuation\<close> as a number, or a list of numbers split on \<open>","\<close> for
  \<open>between\<close>; \<open>availableToBook\<close> as the test that the lower-cased text is \<open>true\<close>;
  \<open>createdAt\<close> split on \<open>","\<close> for \<open>between\<close>; \<open>status\<close> split on \<open>","\<close> for \<open>in\<close>; the text
  itself otherwise.
\<close>

definition specValue ::
  "('n jsval \<Rightarrow> 'n) \<Rightarrow> string \<Rightarrow> string \<Rightarrow> string option \<Rightarrow> 'n jsval" where
  "specValue Number field oper vt =
     (let parts = String_split (CHR '','') (case vt of None \<Rightarrow> [] | Some t \<Rightarrow> t)
      in if field = ''valuation'' \<and> oper = ''between''
           then JArray (map (\<lambda>s. JNumber (Number (JString s))) parts)
         else if field = ''valuation'' then JNumber (Number (jsOfString vt))
         else if field = ''availableToBook''
           then JBoolean (map_option toLowerCase vt = Some ''true'')
         else if field = ''createdAt'' \<and> oper = ''between'' \<or> field = ''status'' \<and> oper = ''in''
           then JArray (map JString parts)
         else jsOfString vt)"

text \<open>The filter record as the specification words it, for one parameter.\<close>

definition specFilter :: "('n jsval \<Rightarrow> 'n) \<Rightarrow> string \<times> string \<Rightarrow> 'n filter" where
  "specFilter Number kv =
     \<lparr>filter.name = fst kv,
      type = (case map_of fieldTypeTable (fst kv) of None \<Rightarrow> ''string'' | Some t \<Rightarrow> t),
      operator = operatorOf (snd kv),
      val = specValue Number (fst kv) (operatorOf (snd kv)) (valueTextOf (snd kv))\<rparr>"

text \<open>
  The alternatives that the location block and the team-member block add to \<open>OR\<close>.
\<close>

definition locationAlts :: "paramsValues \<Rightarrow> assetAlt list" where
  "locationAlts pv =
     (case locationIds pv of
        None \<Rightarrow> []
      | Some ids \<Rightarrow>
          if list_ex (\<lambda>i. i = ''without-location'') ids
          then [LocationIdIn ids, LocationIdNull] else [])"

definition custodyAlts :: "paramsValues \<Rightarrow> assetAlt list" where
  "custodyAlts pv =
     (case teamMemberIds pv of
        None \<Rightarrow> []
      | Some ids \<Rightarrow>
          if ids = [] then []
          else [CustodyTeamMemberIdIn ids, CustodyCustodianUserIdIn ids,
                BookingsSomeCustodianTeamMemberIdIn ids, BookingsSomeCustodianUserIdIn ids]
               @ (if list_ex (\<lambda>i. i = ''without-custody'') ids then [CustodyNull] else []))"

text \<open>
  A \<open>getParamsValues\<close> that collects the values of the parameters named \<open>category\<close>,
  \<open>location\<close>, \<open>tag\<close> and \<open>teamMember\<close> and reads the first \<open>s\<close> as the search.  It
  serves as the helper at concrete inputs.
\<close>

definition plainParamsValues :: "(string \<times> string) list \<Rightarrow> paramsValues" where
  "plainParamsValues ps =
     \<lparr>categoriesIds = Some (map snd (filter (\<lambda>p. fst p = ''category'') ps)),
      locationIds = Some (map snd (filter (\<lambda>p. fst p = ''location'') ps)),
      tagsIds = Some (map snd (filter (\<lambda>p. fst p = ''tag'') ps)),
      search = map_of ps ''s'',
      teamMemberIds = Some (map snd (filter (\<lambda>p. fst p = ''teamMember'') ps))\<rparr>"

text \<open>
  The reading the ORM gives to the \<open>OR\<close> array of a where input, for an asset whose
  satisfaction of each alternative is \<open>sat\<close>: without an array there is no constraint,
  with one at least one alternative must hold.
\<close>

definition satisfiesOR :: "(assetAlt \<Rightarrow> bool) \<Rightarrow> assetWhereInput \<Rightarrow> bool" where
  "satisfiesOR sat w = (case OR w of None \<Rightarrow> True | Some alts \<Rightarrow> list_ex sat alts)"

section \<open>Properties of the where-clause compiler\<close>

lemma sqlText_append: "sqlText (a @ b) = sqlText a @ sqlText b"
  by (simp add: sqlText_def)

lemma sqlText_Cons_Text: "sqlText (Text s # q) = s @ sqlText q"
  by (simp add: sqlText_def)

lemma sqlText_Cons_Param: "sqlText (Param v # q) = ''?'' @ sqlText q"
  by (simp add: sqlText_def)

lemma sqlText_Nil: "sqlText [] = []"
  by (simp add: sqlText_def)

lemma sqlValues_append: "sqlValues (a @ b) = sqlValues a @ sqlValues b"
  by (induction a rule: sqlValues.induct) auto

lemmas sql_simps = sqlText_append sqlText_Cons_Text sqlText_Cons_Param sqlText_Nil
  sqlValues_append Prisma_raw_def

lemma addFilters_append:
  "addFilters num w (fs @ gs) =
     (case addFilters num w fs of Inl e \<Rightarrow> Inl e | Inr w' \<Rightarrow> addFilters num w' gs)"
  by (induction fs arbitrary: w) (auto split: sum.splits)

lemma foldl_addFilterE_Inl: "foldl (addFilterE num) (Inl e) fs = Inl e"
  by (induction fs) (auto simp: addFilterE_def)

lemma addFilters_foldl: "addFilters num w fs = foldl (addFilterE num) (Inr w) fs"
  by (induction fs arbitrary: w) (auto simp: addFilterE_def foldl_addFilterE_Inl split: sum.splits)

lemma nonspace_dropWhile:
  "{c \<in> set (dropWhile isSpace xs). \<not> isSpace c} = {c \<in> set xs. \<not> isSpace c}"
  by (induction xs) auto

lemma nonspace_trim: "{c \<in> set (trim s). \<not> isSpace c} = {c \<in> set s. \<not> isSpace c}"
proof -
  have "{c \<in> set (trim s). \<not> isSpace c} = {c \<in> set (dropWhile isSpace (rev (dropWhile isSpace s))). \<not> isSpace c}"
    by (simp add: trim_def)
  also have "\<dots> = {c \<in> set (rev (dropWhile isSpace s)). \<not> isSpace c}"
    by (rule nonspace_dropWhile)
  also have "\<dots> = {c \<in> set (dropWhile isSpace s). \<not> isSpace c}" by simp
  also have "\<dots> = {c \<in> set s. \<not> isSpace c}" by (rule nonspace_dropWhile)
  finally show ?thesis .
qed

lemma split_ws_nonempty: "split_ws s \<noteq> []"
  by (induction s rule: split_ws.induct) (auto split: list.splits)

lemma set_concat_split_ws: "set (concat (split_ws s)) = {c \<in> set s. \<not> isSpace c}"
proof (induction s rule: split_ws.induct)
  case 1
  then show ?case by simp
next
  case (2 x xs)
  show ?case
  proof (cases "isSpace x")
    case True
    with 2 nonspace_dropWhile[of xs] show ?thesis by auto
  next
    case False
    obtain y ys where sp: "split_ws xs = y # ys"
      using split_ws_nonempty[of xs] by (cases "split_ws xs") auto
    from 2(2)[OF False] sp have ih: "set y \<union> set (concat ys) = {c \<in> set xs. \<not> isSpace c}"
      by simp
    have "set (concat (split_ws (x # xs))) = insert x (set y \<union> set (concat ys))"
      using False sp by simp
    also have "\<dots> = {c \<in> set (x # xs). \<not> isSpace c}"
      unfolding ih using False by auto
    finally show ?thesis .
  qed
qed

lemma words_iff: "filter (\<lambda>w. w \<noteq> []) (split_ws (trim s)) \<noteq> [] \<longleftrightarrow> hasWord s"
proof -
  have "filter (\<lambda>w. w \<noteq> []) (split_ws (trim s)) \<noteq> [] \<longleftrightarrow> set (concat (split_ws (trim s))) \<noteq> {}"
    by (auto simp: filter_empty_conv)
  also have "\<dots> \<longleftrightarrow> {c \<in> set s. \<not> isSpace c} \<noteq> {}"
    by (simp only: set_concat_split_ws nonspace_trim)
  also have "\<dots> \<longleftrightarrow> hasWord s"
    by (auto simp: hasWord_def list_ex_iff)
  finally show ?thesis .
qed

lemma addSearch_shape:
  "addSearch w srch = w \<or>
   (\<exists>q c. sqlText (addSearch w srch) = ''\<newline>        '' @ sqlText w @ '' AND ('' @ c
          \<and> sqlValues (addSearch w srch) = sqlValues w @ [JString q])"
  unfolding addSearch_def by (simp add: sql_simps searchTemplate_def Let_def split: option.splits)

lemma addSearch_changes_iff:
  "addSearch w srch \<noteq> w \<longleftrightarrow> (\<exists>s. srch = Some s \<and> hasWord s)"
proof (cases srch)
  case None
  then show ?thesis by (simp add: addSearch_def)
next
  case (Some s)
  have e: "s = [] \<Longrightarrow> \<not> hasWord s" by (simp add: hasWord_def)
  have neq: "\<And>a b (w :: 'a sql). Text a # w @ b \<noteq> w"
  proof
    fix a b and w :: "'a sql"
    assume "Text a # w @ b = w"
    then have "length (Text a # w @ b) = length w" by simp
    then show False by simp
  qed
  show ?thesis using Some e words_iff[of s] neq
    by (auto simp: addSearch_def searchTemplate_def Let_def)
qed

lemma sqlStrings_nonempty: "sqlStrings q \<noteq> []"
  by (induction q rule: sqlStrings.induct) (auto split: list.splits)

lemma sqlStrings_Text_Nil: "sqlStrings (Text [] # q) = sqlStrings q"
  using sqlStrings_nonempty[of q] by (cases "sqlStrings q") simp_all

lemma sqlStrings_append:
  "sqlStrings (a @ b)
     = butlast (sqlStrings a) @ [last (sqlStrings a) @ hd (sqlStrings b)] @ tl (sqlStrings b)"
proof (induction a)
  case Nil
  then show ?case using sqlStrings_nonempty[of b] by (cases "sqlStrings b") simp_all
next
  case (Cons x ps)
  obtain p P where P: "sqlStrings ps = p # P"
    using sqlStrings_nonempty[of ps] by (cases "sqlStrings ps") auto
  have ih: "sqlStrings (ps @ b)
     = butlast (p # P) @ [last (p # P) @ hd (sqlStrings b)] @ tl (sqlStrings b)"
    using Cons.IH unfolding P .
  show ?case
  proof (cases x)
    case (Text s)
    show ?thesis
    proof (cases P)
      case Nil
      have "sqlStrings ((x # ps) @ b) = (s @ p @ hd (sqlStrings b)) # tl (sqlStrings b)"
        using ih Nil Text by simp
      moreover have "sqlStrings (x # ps) = [s @ p]"
        using P Nil Text by simp
      ultimately show ?thesis by simp
    next
      case (Cons p' P')
      have "sqlStrings ((x # ps) @ b)
          = (s @ p) # butlast (p' # P') @ [last (p' # P') @ hd (sqlStrings b)]
            @ tl (sqlStrings b)"
        using ih Cons Text by simp
      moreover have "sqlStrings (x # ps) = (s @ p) # p' # P'"
        using P Cons Text by simp
      ultimately show ?thesis by simp
    qed
  next
    case (Param v)
    have "sqlStrings ((x # ps) @ b)
        = [] # butlast (p # P) @ [last (p # P) @ hd (sqlStrings b)] @ tl (sqlStrings b)"
      using ih Param by simp
    moreover have "sqlStrings (x # ps) = [] # p # P"
      using P Param by simp
    ultimately show ?thesis by simp
  qed
qed

lemma sqlStrings_tail_cong:
  "sqlStrings t = sqlStrings t' \<Longrightarrow> sqlStrings (w @ t) = sqlStrings (w @ t')"
  unfolding sqlStrings_append[of w t] sqlStrings_append[of w t'] by (rule arg_cong2[where f = "\<lambda>x y. butlast (sqlStrings w) @ [last (sqlStrings w) @ hd x] @ tl y"])

lemma sqlStrings_template:
  assumes "sqlStrings t = sqlStrings t'"
  shows "sqlStrings (Text [] # w @ t) = sqlStrings (w @ t')"
proof -
  have "sqlStrings (Text [] # w @ t) = sqlStrings (w @ t)" by (rule sqlStrings_Text_Nil)
  also have "\<dots> = sqlStrings (w @ t')" by (rule sqlStrings_tail_cong[OF assms])
  finally show ?thesis .
qed

lemma Prisma_sql_joined:
  "length args = Suc n \<Longrightarrow>
     Prisma_sql (s0 # replicate n sep @ [s1]) args
       = Text s0 # commaJoin sep (map embed args) @ [Text s1]"
proof (induction args arbitrary: n s0)
  case Nil
  then show ?case by simp
next
  case (Cons a args)
  show ?case
  proof (cases args)
    case Nil
    with Cons.prems show ?thesis by simp
  next
    case (Cons a' r)
    with Cons.prems obtain m where n: "n = Suc m" and len: "length args = Suc m"
      by (cases n) auto
    from Cons.IH[OF len, of sep] Cons n show ?thesis by simp
  qed
qed

lemma Prisma_join_eq:
  "args \<noteq> [] \<Longrightarrow>
     Prisma_join args = Inr (Text [] # commaJoin '','' (map embed args) @ [Text []])"
proof -
  assume ne: "args \<noteq> []"
  then have "length args = Suc (length args - 1)" by (cases args) auto
  from Prisma_sql_joined[OF this, of "[]" "'',''" "[]"] ne show ?thesis
    by (simp add: Prisma_join_def)
qed

lemma case_pair_default:
  "\<not> isPair v \<Longrightarrow> (case v of JArray [v0, v1] \<Rightarrow> f v0 v1 | _ \<Rightarrow> d) = d"
  by (cases v; auto simp add: isPair_def split: list.splits)

lemma case_array_default:
  "\<not> isArray v \<Longrightarrow> (case v of JArray xs \<Rightarrow> f xs | _ \<Rightarrow> d) = d"
  by (cases v; simp add: isArray_def)

lemma isPair_D: "isPair v \<Longrightarrow> \<exists>a b. v = JArray [a, b]"
  by (cases v) (auto simp: isPair_def length_Suc_conv numeral_2_eq_2)

lemma sqlStrings_cong:
  assumes "sqlStrings a = sqlStrings a'" "sqlStrings b = sqlStrings b'"
  shows "sqlStrings (a @ b) = sqlStrings (a' @ b')"
  unfolding sqlStrings_append[of a b] sqlStrings_append[of a' b'] assms ..

lemma sameSql_refl: "sameSql a a"
  by (simp add: sameSql_def)

lemma sameSql_simple:
  "sameSql (Prisma_sql ['''', A, B, ''''] [Sql w, Sql (Prisma_raw n), Val v])
     (w @ [Text (A @ n @ B), Param v])"
proof -
  have p: "Prisma_sql ['''', A, B, ''''] [Sql w, Sql (Prisma_raw n), Val v]
      = Text [] # w @ [Text A, Text n, Text B, Param v, Text []]"
    by (simp add: Prisma_raw_def)
  have s: "sqlStrings [Text A, Text n, Text B, Param v, Text []]
      = sqlStrings [Text (A @ n @ B), Param v]" by simp
  show ?thesis
    unfolding sameSql_def p using sqlStrings_template[OF s, of w]
    by (simp add: sqlValues_append)
qed

lemma sameSql_between:
  "sameSql (Prisma_sql ['''', A, B, C, ''''] [Sql w, Sql (Prisma_raw n), Val v0, Val v1])
     (w @ [Text (A @ n @ B), Param v0, Text C, Param v1])"
proof -
  have p: "Prisma_sql ['''', A, B, C, ''''] [Sql w, Sql (Prisma_raw n), Val v0, Val v1]
      = Text [] # w @ [Text A, Text n, Text B, Param v0, Text C, Param v1, Text []]"
    by (simp add: Prisma_raw_def)
  have s: "sqlStrings [Text A, Text n, Text B, Param v0, Text C, Param v1, Text []]
      = sqlStrings [Text (A @ n @ B), Param v0, Text C, Param v1]" by simp
  show ?thesis
    unfolding sameSql_def p using sqlStrings_template[OF s, of w]
    by (simp add: sqlValues_append)
qed

lemma sameSql_in:
  "sameSql (Prisma_sql ['''', A, B, C] [Sql w, Sql (Prisma_raw n), Sql (Text [] # cj @ [Text []])])
     (w @ Text (A @ n @ B) # cj @ [Text C])"
proof -
  have p: "Prisma_sql ['''', A, B, C] [Sql w, Sql (Prisma_raw n), Sql (Text [] # cj @ [Text []])]
      = Text [] # w @ ([Text A, Text n, Text B, Text []] @ (cj @ [Text [], Text C]))"
    by (simp add: Prisma_raw_def)
  have q: "w @ Text (A @ n @ B) # cj @ [Text C] = w @ ([Text (A @ n @ B)] @ (cj @ [Text C]))"
    by simp
  have s1: "sqlStrings [Text A, Text n, Text B, Text []] = sqlStrings [Text (A @ n @ B)]"
    by simp
  have s2: "sqlStrings [Text [], Text C] = sqlStrings [Text C]" by simp
  have s3: "sqlStrings (cj @ [Text [], Text C]) = sqlStrings (cj @ [Text C])"
    by (rule sqlStrings_cong[OF refl s2])
  have s: "sqlStrings ([Text A, Text n, Text B, Text []] @ (cj @ [Text [], Text C]))
      = sqlStrings ([Text (A @ n @ B)] @ (cj @ [Text C]))"
    by (rule sqlStrings_cong[OF s1 s3])
  have v: "sqlValues (Text [] # w @ ([Text A, Text n, Text B, Text []] @ (cj @ [Text [], Text C])))
      = sqlValues (w @ ([Text (A @ n @ B)] @ (cj @ [Text C])))"
    by (simp add: sqlValues_append)
  show ?thesis
    unfolding sameSql_def p q using sqlStrings_template[OF s, of w] v by simp
qed

lemma compiled_simple:
  assumes "addFilter num w f
             = Inr (Prisma_sql ['''', A, B, ''''] [Sql w, Sql (Prisma_raw (filter.name f)), Val v])"
    and "compiled num w f = w @ [Text (A @ filter.name f @ B), Param v]"
  shows "\<exists>w'. addFilter num w f = Inr w' \<and> sameSql w' (compiled num w f)"
  unfolding assms using sameSql_simple by blast

lemma compiled_same:
  assumes "addFilter num w f = Inr w" and "compiled num w f = w"
  shows "\<exists>w'. addFilter num w f = Inr w' \<and> sameSql w' (compiled num w f)"
  unfolding assms using sameSql_refl by blast

lemma compiled_pair:
  assumes "addFilter num w f
             = Inr (Prisma_sql ['''', A, B, C, '''']
                      [Sql w, Sql (Prisma_raw (filter.name f)), Val v0, Val v1])"
    and "compiled num w f = w @ [Text (A @ filter.name f @ B), Param v0, Text C, Param v1]"
  shows "\<exists>w'. addFilter num w f = Inr w' \<and> sameSql w' (compiled num w f)"
  unfolding assms using sameSql_between by blast

lemma not_pair_condition:
  "\<not> isPair v \<Longrightarrow>
     (case v of JArray xs \<Rightarrow> if length xs = 2 then g xs else None | _ \<Rightarrow> None) = None"
  by (cases v; simp add: isPair_def)

lemmas condition_defs = compiled_def conditionOf_def comparisonTable_def columnText_def

lemma compiles_string:
  assumes ty: "type f = ''string''"
  shows "\<exists>w'. addFilter num w f = Inr w' \<and> sameSql w' (compiled num w f)"
proof -
  consider (eq) "operator f = ''is''" | (isNot) "operator f = ''isNot''"
    | (other) "operator f \<noteq> ''is''" "operator f \<noteq> ''isNot''" by blast
  then show ?thesis
  proof cases
    case eq
    show ?thesis
      by (rule compiled_simple[where A = \<open>'' AND a."''\<close> and B = \<open>''" = ''\<close> and v = "val f"])
        (simp_all add: addFilter_def addStringFilter_def condition_defs ty eq)
  next
    case isNot
    show ?thesis
      by (rule compiled_simple[where A = \<open>'' AND a."''\<close> and B = \<open>''" != ''\<close> and v = "val f"])
        (simp_all add: addFilter_def addStringFilter_def condition_defs ty isNot)
  next
    case other
    show ?thesis
      by (rule compiled_same)
        (simp_all add: addFilter_def addStringFilter_def condition_defs ty other)
  qed
qed

lemma compiles_text:
  assumes ty: "type f = ''text''"
  shows "\<exists>w'. addFilter num w f = Inr w' \<and> sameSql w' (compiled num w f)"
proof (cases "operator f = ''contains''")
  case True
  show ?thesis
    by (rule compiled_simple[where A = \<open>'' AND a."''\<close> and B = \<open>''" ILIKE ''\<close>
          and v = "JString (''%'' @ ToString num (val f) @ ''%'')"])
      (simp_all add: addFilter_def addTextFilter_def condition_defs ty True)
next
  case False
  show ?thesis
    by (rule compiled_same)
      (simp_all add: addFilter_def addTextFilter_def condition_defs ty False)
qed

lemma compiles_boolean:
  assumes ty: "type f = ''boolean''"
  shows "\<exists>w'. addFilter num w f = Inr w' \<and> sameSql w' (compiled num w f)"
  by (rule compiled_simple[where A = \<open>'' AND a."''\<close> and B = \<open>''" = ''\<close> and v = "val f"])
    (simp_all add: addFilter_def addBooleanFilter_def condition_defs ty)

lemma compiles_other:
  assumes "type f \<noteq> ''string''" "type f \<noteq> ''enum''" "type f \<noteq> ''text''"
    "type f \<noteq> ''number''" "type f \<noteq> ''boolean''" "type f \<noteq> ''date''"
  shows "\<exists>w'. addFilter num w f = Inr w' \<and> sameSql w' (compiled num w f)"
  by (rule compiled_same) (simp_all add: addFilter_def condition_defs assms)

lemma compiles_number:
  assumes ty: "type f = ''number''"
  shows "\<exists>w'. addFilter num w f = Inr w' \<and> sameSql w' (compiled num w f)"
proof -
  consider (eq) "operator f = ''is''" | (neq) "operator f = ''isNot''"
    | (gt) "operator f = ''gt''" | (lt) "operator f = ''lt''"
    | (gte) "operator f = ''gte''" | (lte) "operator f = ''lte''"
    | (between) "operator f = ''between''"
    | (other) "operator f \<noteq> ''is''" "operator f \<noteq> ''isNot''" "operator f \<noteq> ''gt''"
        "operator f \<noteq> ''lt''" "operator f \<noteq> ''gte''" "operator f \<noteq> ''lte''"
        "operator f \<noteq> ''between''"
    by blast
  then show ?thesis
  proof cases
    case eq
    show ?thesis
      by (rule compiled_simple[where A = \<open>'' AND a."''\<close> and B = \<open>''" = ''\<close> and v = "val f"])
        (simp_all add: addFilter_def addNumberFilter_def condition_defs ty eq)
  next
    case neq
    show ?thesis
      by (rule compiled_simple[where A = \<open>'' AND a."''\<close> and B = \<open>''" != ''\<close> and v = "val f"])
        (simp_all add: addFilter_def addNumberFilter_def condition_defs ty neq)
  next
    case gt
    show ?thesis
      by (rule compiled_simple[where A = \<open>'' AND a."''\<close> and B = \<open>''" > ''\<close> and v = "val f"])
        (simp_all add: addFilter_def addNumberFilter_def condition_defs ty gt)
  next
    case lt
    show ?thesis
      by (rule compiled_simple[where A = \<open>'' AND a."''\<close> and B = \<open>''" < ''\<close> and v = "val f"])
        (simp_all add: addFilter_def addNumberFilter_def condition_defs ty lt)
  next
    case gte
    show ?thesis
      by (rule compiled_simple[where A = \<open>'' AND a."''\<close> and B = \<open>''" >= ''\<close> and v = "val f"])
        (simp_all add: addFilter_def addNumberFilter_def condition_defs ty gte)
  next
    case lte
    show ?thesis
      by (rule compiled_simple[where A = \<open>'' AND a."''\<close> and B = \<open>''" <= ''\<close> and v = "val f"])
        (simp_all add: addFilter_def addNumberFilter_def condition_defs ty lte)
  next
    case between
    show ?thesis
    proof (cases "isPair (val f)")
      case True
      then obtain a b where v: "val f = JArray [a, b]" using isPair_D by blast
      show ?thesis
        by (rule compiled_pair[where A = \<open>'' AND a."''\<close> and B = \<open>''" BETWEEN ''\<close>
              and C = "'' AND ''" and ?v0.0 = a and ?v1.0 = b])
          (simp_all add: addFilter_def addNumberFilter_def condition_defs ty between v)
    next
      case False
      show ?thesis
        by (rule compiled_same)
          (simp_all add: addFilter_def addNumberFilter_def condition_defs ty between
            case_pair_default[OF False] not_pair_condition[OF False])
    qed
  next
    case other
    show ?thesis
      by (rule compiled_same)
        (simp_all add: addFilter_def addNumberFilter_def condition_defs ty other)
  qed
qed

lemma compiles_date:
  assumes ty: "type f = ''date''"
  shows "\<exists>w'. addFilter num w f = Inr w' \<and> sameSql w' (compiled num w f)"
proof -
  consider (eq) "operator f = ''is''" | (neq) "operator f = ''isNot''"
    | (before) "operator f = ''before''" | (after) "operator f = ''after''"
    | (between) "operator f = ''between''"
    | (other) "operator f \<noteq> ''is''" "operator f \<noteq> ''isNot''" "operator f \<noteq> ''before''"
        "operator f \<noteq> ''after''" "operator f \<noteq> ''between''"
    by blast
  then show ?thesis
  proof cases
    case eq
    show ?thesis
      by (rule compiled_simple[where A = \<open>'' AND DATE(a."''\<close> and B = \<open>''") = ''\<close>
            and v = "val f"])
        (simp_all add: addFilter_def addDateFilter_def condition_defs ty eq)
  next
    case neq
    show ?thesis
      by (rule compiled_simple[where A = \<open>'' AND DATE(a."''\<close> and B = \<open>''") != ''\<close>
            and v = "val f"])
        (simp_all add: addFilter_def addDateFilter_def condition_defs ty neq)
  next
    case before
    show ?thesis
      by (rule compiled_simple[where A = \<open>'' AND a."''\<close> and B = \<open>''" < ''\<close> and v = "val f"])
        (simp_all add: addFilter_def addDateFilter_def condition_defs ty before)
  next
    case after
    show ?thesis
      by (rule compiled_simple[where A = \<open>'' AND a."''\<close> and B = \<open>''" > ''\<close> and v = "val f"])
        (simp_all add: addFilter_def addDateFilter_def condition_defs ty after)
  next
    case between
    show ?thesis
    proof (cases "isPair (val f)")
      case True
      then obtain a b where v: "val f = JArray [a, b]" using isPair_D by blast
      show ?thesis
        by (rule compiled_pair[where A = \<open>'' AND a."''\<close> and B = \<open>''" BETWEEN ''\<close>
              and C = "'' AND ''" and ?v0.0 = a and ?v1.0 = b])
          (simp_all add: addFilter_def addDateFilter_def condition_defs ty between v)
    next
      case False
      show ?thesis
        by (rule compiled_same)
          (simp_all add: addFilter_def addDateFilter_def condition_defs ty between
            case_pair_default[OF False] not_pair_condition[OF False])
    qed
  next
    case other
    show ?thesis
      by (rule compiled_same)
        (simp_all add: addFilter_def addDateFilter_def condition_defs ty other)
  qed
qed

lemma compiles_enum:
  assumes ty: "type f = ''enum''" and nt: "\<not> enumThrows f"
  shows "\<exists>w'. addFilter num w f = Inr w' \<and> sameSql w' (compiled num w f)"
proof -
  consider (eq) "operator f = ''is''" | (neq) "operator f = ''isNot''"
    | (inop) "operator f = ''in''"
    | (other) "operator f \<noteq> ''is''" "operator f \<noteq> ''isNot''" "operator f \<noteq> ''in''"
    by blast
  then show ?thesis
  proof cases
    case eq
    show ?thesis
      by (rule compiled_simple[where A = \<open>'' AND a."''\<close> and B = \<open>''" = ''\<close> and v = "val f"])
        (simp_all add: addFilter_def addEnumFilter_def condition_defs ty eq)
  next
    case neq
    show ?thesis
      by (rule compiled_simple[where A = \<open>'' AND a."''\<close> and B = \<open>''" != ''\<close> and v = "val f"])
        (simp_all add: addFilter_def addEnumFilter_def condition_defs ty neq)
  next
    case inop
    show ?thesis
    proof (cases "isArray (val f)")
      case True
      then obtain xs where v: "val f = JArray xs" by (cases "val f") (simp_all add: isArray_def)
      with nt ty inop have ne: "xs \<noteq> []" by (simp add: enumThrows_def)
      then have ne': "map Val xs \<noteq> []" by simp
      let ?cj = "commaJoin '','' (map (\<lambda>x. [Param x]) xs) :: 'a sql"
      have j: "Prisma_join (map Val xs) = Inr (Text [] # ?cj @ [Text []])"
        using Prisma_join_eq[OF ne'] by (simp add: comp_def)
      have r: \<open>addFilter num w f
          = Inr (Prisma_sql ['''', '' AND a."'', ''" IN ('', '')'']
                   [Sql w, Sql (Prisma_raw (filter.name f)), Sql (Text [] # ?cj @ [Text []])])\<close>
        by (simp add: addFilter_def addEnumFilter_def ty inop v j)
      have c: \<open>compiled num w f
          = w @ Text ('' AND a."'' @ filter.name f @ ''" IN ('') # ?cj @ [Text '')'']\<close>
        by (simp add: condition_defs ty inop v ne)
      show ?thesis unfolding r c using sameSql_in by blast
    next
      case False
      show ?thesis
        by (rule compiled_same)
          (simp_all add: addFilter_def addEnumFilter_def condition_defs ty inop
            case_array_default[OF False])
    qed
  next
    case other
    show ?thesis
      by (rule compiled_same)
        (simp_all add: addFilter_def addEnumFilter_def condition_defs ty other)
  qed
qed

lemma addFilter_compiled:
  assumes "\<not> enumThrows f"
  shows "\<exists>w'. addFilter num w f = Inr w' \<and> sameSql w' (compiled num w f)"
proof -
  consider "type f = ''string''" | "type f = ''enum''" | "type f = ''text''"
    | "type f = ''number''" | "type f = ''boolean''" | "type f = ''date''"
    | "type f \<noteq> ''string''" "type f \<noteq> ''enum''" "type f \<noteq> ''text''"
      "type f \<noteq> ''number''" "type f \<noteq> ''boolean''" "type f \<noteq> ''date''"
    by blast
  then show ?thesis
    using compiles_string compiles_enum[OF _ assms] compiles_text compiles_number
      compiles_boolean compiles_date compiles_other
    by cases blast+
qed

lemma addFilter_enumThrows: "enumThrows f \<Longrightarrow> addFilter num w f = Inl TypeError"
  by (simp add: enumThrows_def addFilter_def addEnumFilter_def Prisma_join_def)

lemma addSearch_exact:
  \<open>addSearch w (Some s) =
     (if hasWord s then
        Text (''\<newline>'' @ ''        '') # w
          @ [Text ('' AND (\<newline>''
                   @ ''          to_tsvector('english', a."title" || ' ' || COALESCE(a."description", ''
                   @ [CHR 0x27, CHR 0x27] @ '')) @@ to_tsquery('english', ''),
             Param (JString (Array_join '' | ''
               (map (\<lambda>word. word @ '':* | '' @ word)
                 (filter (\<lambda>x. x \<noteq> []) (split_ws (trim s)))))),
             Text ('')\<newline>''
                   @ ''        )\<newline>''
                   @ ''      '')]
      else w)\<close>
proof -
  have e: "s = [] \<Longrightarrow> \<not> hasWord s" by (simp add: hasWord_def)
  show ?thesis
    using e words_iff[of s]
    by (auto simp: addSearch_def searchTemplate_def Let_def)
qed

lemma addSearch_no_words: "\<not> hasWords srch \<Longrightarrow> addSearch w srch = w"
  using addSearch_changes_iff[of w srch] by (auto simp: hasWords_def split: option.splits)

text \<open>
  C3 (amended).  The where-clause compiler is a left fold over the filter list.  With a
  null search and no filter the result is the base clause: the text
  \<open>WHERE a."organizationId" = \<close> and the organization id as its one parameter.  In general
  the result is the fold of the filter step over the filters, left to right, starting
  from the base clause, which the search conjunct follows exactly when the search contains
  a word (a character that is not white space); the search conjunct is the full-text
  condition below, around the clause it extends, with the query built from the words as
  its one parameter.  A filter step throws on \<open>in\<close> on an enum with the empty array;
  otherwise it returns the clause followed by the one condition of the filter, if the
  filter has one: \<open>AND\<close>, the column and the comparison chosen by the filter's type and
  operator.  Compiling \<open>fs @ gs\<close> is compiling \<open>fs\<close> and then folding \<open>gs\<close> over the
  result.
\<close>

theorem generateWhereClause_left_fold:
  \<open>generateWhereClause num org None [] = Inr (baseClause org)
   \<and> sqlStrings (baseClause org :: 'n sql) = [''WHERE a."organizationId" = '', []]
   \<and> sqlValues (baseClause org :: 'n sql) = [JString org]
   \<and> generateWhereClause num org srch fs
       = foldl (addFilterE num) (Inr (addSearch (baseClause org) srch)) fs
   \<and> (addSearch w srch \<noteq> w \<longleftrightarrow> (\<exists>s. srch = Some s \<and> hasWord s))
   \<and> (hasWord s \<longrightarrow>
        addSearch w (Some s)
          = Text (''\<newline>'' @ ''        '') # w
            @ [Text ('' AND (\<newline>''
                     @ ''          to_tsvector('english', a."title" || ' ' || COALESCE(a."description", ''
                     @ [CHR 0x27, CHR 0x27] @ '')) @@ to_tsquery('english', ''),
               Param (JString (Array_join '' | ''
                 (map (\<lambda>word. word @ '':* | '' @ word)
                   (filter (\<lambda>x. x \<noteq> []) (split_ws (trim s)))))),
               Text ('')\<newline>''
                     @ ''        )\<newline>''
                     @ ''      '')])
   \<and> (enumThrows f \<longrightarrow> addFilter num w f = Inl TypeError)
   \<and> (\<not> enumThrows f \<longrightarrow>
        (\<exists>w'. addFilter num w f = Inr w' \<and> sameSql w' (compiled num w f)))
   \<and> generateWhereClause num org srch (fs @ gs)
       = foldl (addFilterE num) (generateWhereClause num org srch fs) gs
   \<and> (conditionOf num f = None \<longrightarrow> compiled num w f = w)
   \<and> (\<forall>cmp rest. conditionOf num f = Some (cmp, rest)
        \<longrightarrow> compiled num w f = w @ Text ('' AND '' @ columnText f @ cmp) # rest)\<close>
proof -
  have a: "generateWhereClause num org None [] = Inr (baseClause org)"
    by (simp add: generateWhereClause_def addSearch_def)
  have b: \<open>sqlStrings (baseClause org :: 'n sql) = [''WHERE a."organizationId" = '', []]\<close>
    by (simp add: baseClause_def)
  have c: "sqlValues (baseClause org :: 'n sql) = [JString org]"
    by (simp add: baseClause_def)
  have d: "\<And>xs. generateWhereClause num org srch xs
       = foldl (addFilterE num) (Inr (addSearch (baseClause org) srch)) xs"
    by (simp add: generateWhereClause_def addFilters_foldl)
  have e: "generateWhereClause num org srch (fs @ gs)
       = foldl (addFilterE num) (generateWhereClause num org srch fs) gs"
    by (simp add: d)
  have f1: "addSearch w srch \<noteq> w \<longleftrightarrow> (\<exists>s. srch = Some s \<and> hasWord s)"
    by (rule addSearch_changes_iff)
  have f2: \<open>hasWord s \<longrightarrow>
        addSearch w (Some s)
          = Text (''\<newline>'' @ ''        '') # w
            @ [Text ('' AND (\<newline>''
                     @ ''          to_tsvector('english', a."title" || ' ' || COALESCE(a."description", ''
                     @ [CHR 0x27, CHR 0x27] @ '')) @@ to_tsquery('english', ''),
               Param (JString (Array_join '' | ''
                 (map (\<lambda>word. word @ '':* | '' @ word)
                   (filter (\<lambda>x. x \<noteq> []) (split_ws (trim s)))))),
               Text ('')\<newline>''
                     @ ''        )\<newline>''
                     @ ''      '')]\<close>
    by (simp add: addSearch_exact[of w s])
  have g1: "enumThrows f \<longrightarrow> addFilter num w f = Inl TypeError"
    using addFilter_enumThrows by blast
  have g2: "\<not> enumThrows f \<longrightarrow>
        (\<exists>w'. addFilter num w f = Inr w' \<and> sameSql w' (compiled num w f))"
    using addFilter_compiled by blast
  have h1: "conditionOf num f = None \<longrightarrow> compiled num w f = w"
    by (simp add: compiled_def)
  have h2: "\<forall>cmp rest. conditionOf num f = Some (cmp, rest)
        \<longrightarrow> compiled num w f = w @ Text ('' AND '' @ columnText f @ cmp) # rest"
    by (simp add: compiled_def)
  show ?thesis
    by (intro conjI)
       (fact a, fact b, fact c, fact d, fact f1, fact f2, fact g1, fact g2, fact e, fact h1,
        fact h2)
qed

lemma words_red_bike:
  "filter (\<lambda>x. x \<noteq> []) (split_ws (trim ''red bike'')) = [''red'', ''bike'']"
  by (simp add: trim_def isSpace_def)

theorem generateWhereClause_left_fold_witness:
  \<open>hasWord ''red bike''
   \<and> sqlValues (addSearch (baseClause ''org1'' :: string sql) (Some ''red bike''))
       = [JString ''org1'', JString ''red:* | red | bike:* | bike'']
   \<and> \<not> enumThrows \<lparr>filter.name = ''id'', type = ''string'', operator = ''is'',
                      val = (JString ''a1'' :: string jsval)\<rparr>
   \<and> (\<exists>w'. addFilter (\<lambda>s::string. s) (baseClause ''org1'')
               \<lparr>filter.name = ''id'', type = ''string'', operator = ''is'',
                 val = JString ''a1''\<rparr> = Inr w'
          \<and> sqlStrings w' = [''WHERE a."organizationId" = '', '' AND a."id" = '', []]
          \<and> sqlValues w' = [JString ''org1'', JString ''a1''])\<close>
proof -
  let ?f = \<open>\<lparr>filter.name = ''id'', type = ''string'', operator = ''is'',
              val = (JString ''a1'' :: string jsval)\<rparr>\<close>
  note T = generateWhereClause_left_fold[where num = "\<lambda>s::string. s"
        and w = "baseClause ''org1''" and f = ?f and s = "''red bike''"]
  have h: "hasWord ''red bike''" by (simp add: hasWord_def isSpace_def)
  have n: "\<not> enumThrows ?f" by (simp add: enumThrows_def)
  from T[THEN conjunct2, THEN conjunct2, THEN conjunct2, THEN conjunct2, THEN conjunct2,
      THEN conjunct1, THEN mp, OF h]
  have v: "sqlValues (addSearch (baseClause ''org1'' :: string sql) (Some ''red bike''))
       = [JString ''org1'', JString ''red:* | red | bike:* | bike'']"
    by (simp add: words_red_bike sqlValues_append baseClause_def)
  from T[THEN conjunct2, THEN conjunct2, THEN conjunct2, THEN conjunct2, THEN conjunct2,
      THEN conjunct2, THEN conjunct2, THEN conjunct1, THEN mp, OF n]
  obtain w' where r: "addFilter (\<lambda>s::string. s) (baseClause ''org1'') ?f = Inr w'"
    and s: "sameSql w' (compiled (\<lambda>s::string. s) (baseClause ''org1'') ?f)"
    by blast
  have c: \<open>compiled (\<lambda>s::string. s) (baseClause ''org1'') ?f
      = baseClause ''org1'' @ [Text '' AND a."id" = '', Param (JString ''a1'')]\<close>
    by (simp add: condition_defs)
  from s have s1: \<open>sqlStrings w' = [''WHERE a."organizationId" = '', '' AND a."id" = '', []]\<close>
    and s2: "sqlValues w' = [JString ''org1'', JString ''a1'']"
    unfolding sameSql_def c by (simp_all add: baseClause_def)
  from r s1 s2 have ex: \<open>\<exists>w'. addFilter (\<lambda>s::string. s) (baseClause ''org1'') ?f = Inr w'
          \<and> sqlStrings w' = [''WHERE a."organizationId" = '', '' AND a."id" = '', []]
          \<and> sqlValues w' = [JString ''org1'', JString ''a1'']\<close>
    by blast
  show ?thesis
    by (intro conjI) (fact h, fact v, fact n, fact ex)
qed

text \<open>
  C3 as stated fails on a search of white space only: the search is a non-empty string,
  yet no word is found in it and the result is the base clause alone.
\<close>

theorem blank_search_counterexample:
  "generateWhereClause (\<lambda>s::string. s) ''org1'' (Some '' '') []
     = Inr (baseClause ''org1'')
   \<and> generateWhereClause (\<lambda>s::string. s) ''org1'' None [] = Inr (baseClause ''org1'')"
  by (simp add: generateWhereClause_def addSearch_def trim_def isSpace_def)


lemma addStringFilter_default:
  "oper \<noteq> ''is'' \<Longrightarrow> oper \<noteq> ''isNot'' \<Longrightarrow> addStringFilter w n oper v = w"
  by (simp add: addStringFilter_def)

lemma addTextFilter_default:
  "oper \<noteq> ''contains'' \<Longrightarrow> addTextFilter num w n oper v = w"
  by (simp add: addTextFilter_def)

lemma addEnumFilter_default:
  assumes "oper \<noteq> ''is''" "oper \<noteq> ''isNot''" "oper \<noteq> ''in'' \<or> \<not> isArray v"
  shows "addEnumFilter w n oper v = Inr w"
proof (cases "oper = ''in''")
  case True
  with assms have "\<not> isArray v" by simp
  then show ?thesis using True by (simp add: addEnumFilter_def case_array_default)
next
  case False
  with assms show ?thesis by (simp add: addEnumFilter_def)
qed

lemma addNumberFilter_default:
  assumes "oper \<notin> set [''is'', ''isNot'', ''gt'', ''lt'', ''gte'', ''lte'']"
    and "oper \<noteq> ''between'' \<or> \<not> isPair v"
  shows "addNumberFilter w n oper v = w"
proof (cases "oper = ''between''")
  case True
  with assms have "\<not> isPair v" by simp
  then show ?thesis using True by (simp add: addNumberFilter_def case_pair_default)
next
  case False
  with assms show ?thesis by (simp add: addNumberFilter_def)
qed

lemma addDateFilter_default:
  assumes "oper \<notin> set [''is'', ''isNot'', ''before'', ''after'']"
    and "oper \<noteq> ''between'' \<or> \<not> isPair v"
  shows "addDateFilter w n oper v = w"
proof (cases "oper = ''between''")
  case True
  with assms have "\<not> isPair v" by simp
  then show ?thesis using True by (simp add: addDateFilter_def case_pair_default)
next
  case False
  with assms show ?thesis by (simp add: addDateFilter_def)
qed

lemma malformed_cases:
  assumes "malformed f"
  shows "(type f = ''string'' \<and> operator f \<noteq> ''is'' \<and> operator f \<noteq> ''isNot'')
       \<or> (type f = ''enum'' \<and> operator f \<noteq> ''is'' \<and> operator f \<noteq> ''isNot''
            \<and> (operator f \<noteq> ''in'' \<or> \<not> isArray (val f)))
       \<or> (type f = ''text'' \<and> operator f \<noteq> ''contains'')
       \<or> (type f = ''number'' \<and> operator f \<notin> set [''is'', ''isNot'', ''gt'', ''lt'', ''gte'', ''lte'']
            \<and> (operator f \<noteq> ''between'' \<or> \<not> isPair (val f)))
       \<or> (type f = ''date'' \<and> operator f \<notin> set [''is'', ''isNot'', ''before'', ''after'']
            \<and> (operator f \<noteq> ''between'' \<or> \<not> isPair (val f)))
       \<or> (type f \<notin> set filterTypes)"
proof -
  consider (s) "type f = ''string''" | (e) "type f = ''enum''" | (t) "type f = ''text''"
    | (n) "type f = ''number''" | (d) "type f = ''date''" | (b) "type f = ''boolean''"
    | (o) "type f \<notin> set filterTypes"
    by (auto simp: filterTypes_def)
  then show ?thesis
  proof cases
    case s
    with assms show ?thesis by (simp add: malformed_def operatorCases_def filterTypes_def)
  next
    case e
    with assms show ?thesis by (auto simp add: malformed_def operatorCases_def filterTypes_def)
  next
    case t
    with assms show ?thesis by (simp add: malformed_def operatorCases_def filterTypes_def)
  next
    case n
    with assms show ?thesis by (auto simp add: malformed_def operatorCases_def filterTypes_def)
  next
    case d
    with assms show ?thesis by (auto simp add: malformed_def operatorCases_def filterTypes_def)
  next
    case b
    with assms show ?thesis by (simp add: malformed_def operatorCases_def filterTypes_def)
  next
    case o
    then show ?thesis by simp
  qed
qed

lemma malformed_unchanged:
  assumes "malformed f"
  shows "addFilter num w f = Inr w"
proof -
  from malformed_cases[OF assms] consider
      (s) "type f = ''string''" "operator f \<noteq> ''is''" "operator f \<noteq> ''isNot''"
    | (e) "type f = ''enum''" "operator f \<noteq> ''is''" "operator f \<noteq> ''isNot''"
          "operator f \<noteq> ''in'' \<or> \<not> isArray (val f)"
    | (t) "type f = ''text''" "operator f \<noteq> ''contains''"
    | (n) "type f = ''number''"
          "operator f \<notin> set [''is'', ''isNot'', ''gt'', ''lt'', ''gte'', ''lte'']"
          "operator f \<noteq> ''between'' \<or> \<not> isPair (val f)"
    | (d) "type f = ''date''" "operator f \<notin> set [''is'', ''isNot'', ''before'', ''after'']"
          "operator f \<noteq> ''between'' \<or> \<not> isPair (val f)"
    | (o) "type f \<notin> set filterTypes"
    by blast
  then show ?thesis
  proof cases
    case s
    then show ?thesis by (simp add: addFilter_def addStringFilter_default)
  next
    case e
    then show ?thesis by (simp add: addFilter_def addEnumFilter_default)
  next
    case t
    then show ?thesis by (simp add: addFilter_def addTextFilter_default)
  next
    case n
    then show ?thesis by (simp add: addFilter_def addNumberFilter_default)
  next
    case d
    then show ?thesis by (simp add: addFilter_def addDateFilter_default)
  next
    case o
    then show ?thesis by (simp add: addFilter_def filterTypes_def)
  qed
qed

lemma addFilters_skip:
  "addFilter num w f = Inr w \<Longrightarrow> addFilters num w (f # gs) = addFilters num w gs"
  by simp

lemma addFilters_drop_malformed:
  "malformed f \<Longrightarrow> addFilters num w (fs @ f # gs) = addFilters num w (fs @ gs)"
  by (simp add: addFilters_append malformed_unchanged split: sum.splits)

lemma boolean_compiled:
  assumes "type f = ''boolean''"
  shows \<open>\<exists>w'. addFilter num w f = Inr w'
           \<and> sqlStrings w'
               = sqlStrings (w @ [Text ('' AND a."'' @ filter.name f @ ''" = ''), Param (val f)])
           \<and> sqlValues w' = sqlValues w @ [val f]\<close>
proof -
  from compiles_boolean[OF assms, of num w] obtain w' where
    r: "addFilter num w f = Inr w'" and s: "sameSql w' (compiled num w f)" by blast
  have c: \<open>compiled num w f
      = w @ [Text ('' AND a."'' @ filter.name f @ ''" = ''), Param (val f)]\<close>
    by (simp add: condition_defs assms)
  from s have \<open>sqlStrings w'
               = sqlStrings (w @ [Text ('' AND a."'' @ filter.name f @ ''" = ''), Param (val f)])\<close>
    and "sqlValues w' = sqlValues w @ [val f]"
    unfolding sameSql_def c by (simp_all add: sqlValues_append)
  with r show ?thesis by blast
qed

text \<open>
  C10 (amended).  A malformed filter of a type other than boolean leaves the WHERE clause
  as it is: \<open>generateWhereClause\<close> returns what it returns for the list without that
  filter.  The function writes nothing to the console, so there is no warning.  A boolean
  filter is compiled whatever its operator: the step returns the clause followed by
  \<open>AND a."name" = ?\<close> with the filter's value bound, and so does \<open>generateWhereClause\<close> for
  a list that ends with the filter.
\<close>

theorem malformed_filter_ignored:
  \<open>(malformed f \<longrightarrow>
      generateWhereClause num org srch (fs @ f # gs) = generateWhereClause num org srch (fs @ gs))
   \<and> (type f = ''boolean'' \<longrightarrow>
        (\<exists>w'. addFilter num w f = Inr w'
           \<and> sqlStrings w'
               = sqlStrings (w @ [Text ('' AND a."'' @ filter.name f @ ''" = ''), Param (val f)])
           \<and> sqlValues w' = sqlValues w @ [val f]))
   \<and> (type f = ''boolean'' \<and> generateWhereClause num org srch fs = Inr w \<longrightarrow>
        (\<exists>w'. generateWhereClause num org srch (fs @ [f]) = Inr w'
           \<and> sqlStrings w'
               = sqlStrings (w @ [Text ('' AND a."'' @ filter.name f @ ''" = ''), Param (val f)])
           \<and> sqlValues w' = sqlValues w @ [val f]))\<close>
proof -
  have 1: "malformed f \<longrightarrow>
      generateWhereClause num org srch (fs @ f # gs) = generateWhereClause num org srch (fs @ gs)"
    by (simp add: generateWhereClause_def addFilters_drop_malformed)
  have 2: \<open>type f = ''boolean'' \<longrightarrow>
        (\<exists>w'. addFilter num w f = Inr w'
           \<and> sqlStrings w'
               = sqlStrings (w @ [Text ('' AND a."'' @ filter.name f @ ''" = ''), Param (val f)])
           \<and> sqlValues w' = sqlValues w @ [val f])\<close>
    using boolean_compiled by blast
  have 3: \<open>type f = ''boolean'' \<and> generateWhereClause num org srch fs = Inr w \<longrightarrow>
        (\<exists>w'. generateWhereClause num org srch (fs @ [f]) = Inr w'
           \<and> sqlStrings w'
               = sqlStrings (w @ [Text ('' AND a."'' @ filter.name f @ ''" = ''), Param (val f)])
           \<and> sqlValues w' = sqlValues w @ [val f])\<close>
  proof
    assume h: "type f = ''boolean'' \<and> generateWhereClause num org srch fs = Inr w"
    then have g: "generateWhereClause num org srch (fs @ [f]) = addFilter num w f"
      by (simp add: generateWhereClause_def addFilters_append split: sum.splits)
    from h boolean_compiled[of f num w] show \<open>\<exists>w'. generateWhereClause num org srch (fs @ [f]) = Inr w'
           \<and> sqlStrings w'
               = sqlStrings (w @ [Text ('' AND a."'' @ filter.name f @ ''" = ''), Param (val f)])
           \<and> sqlValues w' = sqlValues w @ [val f]\<close>
      unfolding g by blast
  qed
  show ?thesis by (intro conjI) (fact 1, fact 2, fact 3)
qed

theorem malformed_filter_ignored_witness:
  \<open>malformed \<lparr>filter.name = ''valuation'', type = ''number'', operator = ''contains'',
               val = JNumber ''5''\<rparr>
   \<and> generateWhereClause (\<lambda>s::string. s) ''org1'' None
        ([\<lparr>filter.name = ''id'', type = ''string'', operator = ''is'', val = JString ''a1''\<rparr>]
         @ \<lparr>filter.name = ''valuation'', type = ''number'', operator = ''contains'',
              val = JNumber ''5''\<rparr> # [])
     = generateWhereClause (\<lambda>s::string. s) ''org1'' None
        ([\<lparr>filter.name = ''id'', type = ''string'', operator = ''is'', val = JString ''a1''\<rparr>]
         @ [])
   \<and> type \<lparr>filter.name = ''availableToBook'', type = ''boolean'', operator = ''gt'',
             val = (JBoolean False :: string jsval)\<rparr> = ''boolean''
   \<and> (\<exists>w'. addFilter (\<lambda>s::string. s) (baseClause ''org1'')
               \<lparr>filter.name = ''availableToBook'', type = ''boolean'', operator = ''gt'',
                 val = JBoolean False\<rparr> = Inr w'
          \<and> sqlStrings w'
              = [''WHERE a."organizationId" = '', '' AND a."availableToBook" = '', []]
          \<and> sqlValues w' = [JString ''org1'', JBoolean False])\<close>
proof -
  let ?m = \<open>\<lparr>filter.name = ''valuation'', type = ''number'', operator = ''contains'',
               val = (JNumber ''5'' :: string jsval)\<rparr>\<close>
  let ?b = \<open>\<lparr>filter.name = ''availableToBook'', type = ''boolean'', operator = ''gt'',
             val = (JBoolean False :: string jsval)\<rparr>\<close>
  have m: "malformed ?m"
    by (simp add: malformed_def operatorCases_def filterTypes_def)
  have t: "type ?b = ''boolean''" by simp
  from malformed_filter_ignored[where f = ?m and num = "\<lambda>s::string. s" and org = "''org1''"
      and srch = None
      and fs = "[\<lparr>filter.name = ''id'', type = ''string'', operator = ''is'', val = JString ''a1''\<rparr>]"
      and gs = "[]", THEN conjunct1, THEN mp, OF m]
  have e: \<open>generateWhereClause (\<lambda>s::string. s) ''org1'' None
        ([\<lparr>filter.name = ''id'', type = ''string'', operator = ''is'', val = JString ''a1''\<rparr>]
         @ ?m # [])
     = generateWhereClause (\<lambda>s::string. s) ''org1'' None
        ([\<lparr>filter.name = ''id'', type = ''string'', operator = ''is'', val = JString ''a1''\<rparr>]
         @ [])\<close> .
  from malformed_filter_ignored[where f = ?b and num = "\<lambda>s::string. s"
      and w = "baseClause ''org1''", THEN conjunct2, THEN conjunct1, THEN mp, OF t]
  obtain w' where r: "addFilter (\<lambda>s::string. s) (baseClause ''org1'') ?b = Inr w'"
    and s1: \<open>sqlStrings w'
               = sqlStrings (baseClause ''org1''
                   @ [Text ('' AND a."'' @ filter.name ?b @ ''" = ''), Param (val ?b)])\<close>
    and s2: "sqlValues w' = sqlValues (baseClause ''org1'' :: string sql) @ [val ?b]"
    by blast
  from s1 have s1': \<open>sqlStrings w'
              = [''WHERE a."organizationId" = '', '' AND a."availableToBook" = '', []]\<close>
    by (simp add: baseClause_def)
  from s2 have s2': "sqlValues w' = [JString ''org1'', JBoolean False]"
    by (simp add: baseClause_def)
  from r s1' s2' have ex: \<open>\<exists>w'. addFilter (\<lambda>s::string. s) (baseClause ''org1'') ?b = Inr w'
          \<and> sqlStrings w'
              = [''WHERE a."organizationId" = '', '' AND a."availableToBook" = '', []]
          \<and> sqlValues w' = [JString ''org1'', JBoolean False]\<close>
    by blast
  show ?thesis
    by (intro conjI) (fact m, fact e, fact t, fact ex)
qed

text \<open>
  C10 as stated fails on a boolean filter: \<open>contains\<close> is no operator of a boolean
  filter, yet the filter adds its conjunct.
\<close>

theorem boolean_filter_counterexample:
  \<open>generateWhereClause (\<lambda>s::string. s) ''org1'' None
      [\<lparr>filter.name = ''availableToBook'', type = ''boolean'', operator = ''contains'',
        val = JBoolean True\<rparr>]
     = Inr (addBooleanFilter (baseClause ''org1'') ''availableToBook'' (JBoolean True))
   \<and> sqlText (addBooleanFilter (baseClause ''org1'' :: string sql) ''availableToBook''
                (JBoolean True))
     = ''WHERE a."organizationId" = ? AND a."availableToBook" = ?''
   \<and> generateWhereClause (\<lambda>s::string. s) ''org1'' None [] = Inr (baseClause ''org1'')
   \<and> sqlText (baseClause ''org1'' :: string sql) = ''WHERE a."organizationId" = ?''\<close>
  by (simp add: generateWhereClause_def addSearch_def addFilter_def addBooleanFilter_def
      baseClause_def sql_simps)









lemma sameText_strings: "sameText a b \<Longrightarrow> sqlStrings a = sqlStrings b"
  unfolding sameText_def
proof (induction a b rule: list_all2_induct)
  case Nil
  then show ?case by simp
next
  case (Cons p a q b)
  then show ?case by (cases p; cases q; simp add: samePiece_def)
qed

lemma sameText_append: "sameText a b \<Longrightarrow> sameText c d \<Longrightarrow> sameText (a @ c) (b @ d)"
  by (simp add: sameText_def list_all2_appendI)

lemma sameText_Text: "sameText a b \<Longrightarrow> sameText (Text s # a) (Text s # b)"
  by (simp add: sameText_def samePiece_def)

lemma sameText_Param: "sameText a b \<Longrightarrow> sameText (Param v # a) (Param v' # b)"
  by (simp add: sameText_def samePiece_def)

lemma sameText_Nil: "sameText [] []"
  by (simp add: sameText_def)

lemmas sameText_intros = sameText_append sameText_Text sameText_Param sameText_Nil

lemma sameText_join:
  "length xs = length ys \<Longrightarrow>
     sameText (Prisma_sql ss (map Val xs)) (Prisma_sql ss (map Val ys))"
proof (induction xs ys arbitrary: ss rule: list_induct2)
  case Nil
  then show ?case by (cases ss) (simp_all add: sameText_intros)
next
  case (Cons x xs y ys)
  then show ?case by (cases ss) (simp_all add: sameText_intros)
qed

lemma shape_array:
  "shape v = shape v' \<Longrightarrow> v = JArray xs \<Longrightarrow> \<exists>ys. v' = JArray ys \<and> length ys = length xs"
  by (cases v') (simp_all add: shape_def)

lemma shape_isArray: "shape v = shape v' \<Longrightarrow> isArray v = isArray v'"
  by (cases v; cases v'; simp add: shape_def isArray_def)

lemma shape_isPair: "shape v = shape v' \<Longrightarrow> isPair v = isPair v'"
  by (cases v; cases v'; simp add: shape_def isPair_def)

lemma sameText_string:
  "sameText w w' \<Longrightarrow> sameText (addStringFilter w n oper v) (addStringFilter w' n oper v')"
  by (simp add: addStringFilter_def Prisma_raw_def sameText_intros)

lemma sameText_text:
  "sameText w w' \<Longrightarrow> sameText (addTextFilter num w n oper v) (addTextFilter num' w' n oper v')"
  by (simp add: addTextFilter_def Prisma_raw_def sameText_intros)

lemma sameText_boolean:
  "sameText w w' \<Longrightarrow> sameText (addBooleanFilter w n v) (addBooleanFilter w' n v')"
  by (simp add: addBooleanFilter_def Prisma_raw_def sameText_intros)

lemma sameText_number:
  assumes "sameText w w'" "shape v = shape v'"
  shows "sameText (addNumberFilter w n oper v) (addNumberFilter w' n oper v')"
proof (cases "oper = ''between''")
  case True
  show ?thesis
  proof (cases "isPair v")
    case p: True
    then have "isPair v'" using assms(2) shape_isPair by blast
    with p obtain a b a' b' where "v = JArray [a, b]" "v' = JArray [a', b']"
      using isPair_D by blast
    with True assms(1) show ?thesis
      by (simp add: addNumberFilter_def Prisma_raw_def sameText_intros)
  next
    case p: False
    then have "\<not> isPair v'" using assms(2) shape_isPair by blast
    with p True assms(1) show ?thesis
      by (simp add: addNumberFilter_def case_pair_default)
  qed
next
  case False
  with assms(1) show ?thesis
    by (simp add: addNumberFilter_def Prisma_raw_def sameText_intros)
qed

lemma sameText_date:
  assumes "sameText w w'" "shape v = shape v'"
  shows "sameText (addDateFilter w n oper v) (addDateFilter w' n oper v')"
proof (cases "oper = ''between''")
  case True
  show ?thesis
  proof (cases "isPair v")
    case p: True
    then have "isPair v'" using assms(2) shape_isPair by blast
    with p obtain a b a' b' where "v = JArray [a, b]" "v' = JArray [a', b']"
      using isPair_D by blast
    with True assms(1) show ?thesis
      by (simp add: addDateFilter_def Prisma_raw_def sameText_intros)
  next
    case p: False
    then have "\<not> isPair v'" using assms(2) shape_isPair by blast
    with p True assms(1) show ?thesis
      by (simp add: addDateFilter_def case_pair_default)
  qed
next
  case False
  with assms(1) show ?thesis
    by (simp add: addDateFilter_def Prisma_raw_def sameText_intros)
qed

lemma sameText_enum:
  assumes "sameText w w'" "shape v = shape v'"
  shows "rel_sum (=) sameText (addEnumFilter w n oper v) (addEnumFilter w' n oper v')"
proof (cases "oper = ''in''")
  case True
  show ?thesis
  proof (cases "isArray v")
    case p: True
    then obtain xs where v: "v = JArray xs" by (cases v) (simp_all add: isArray_def)
    with assms(2) obtain ys where v': "v' = JArray ys" and len: "length ys = length xs"
      using shape_array by blast
    show ?thesis
    proof (cases "xs = []")
      case e: True
      with len have "ys = []" by simp
      with e v v' True show ?thesis by (simp add: addEnumFilter_def Prisma_join_def)
    next
      case ne: False
      with len have "ys \<noteq> []" by auto
      with ne v v' True assms(1) len sameText_join[of xs ys] show ?thesis
        by (simp add: addEnumFilter_def Prisma_join_def Prisma_raw_def sameText_intros)
    qed
  next
    case p: False
    then have "\<not> isArray v'" using assms(2) shape_isArray by blast
    with p True assms(1) show ?thesis
      by (simp add: addEnumFilter_def case_array_default)
  qed
next
  case False
  with assms(1) show ?thesis
    by (simp add: addEnumFilter_def Prisma_raw_def sameText_intros)
qed

lemma sameText_addFilter:
  assumes "sameText w w'" "sameShape f g"
  shows "rel_sum (=) sameText (addFilter num w f) (addFilter num' w' g)"
proof -
  from assms(2) have eq: "filter.name g = filter.name f" "type g = type f"
      "operator g = operator f" and sh: "shape (val f) = shape (val g)"
    by (simp_all add: sameShape_def)
  show ?thesis
    unfolding addFilter_def eq
    using sameText_string[OF assms(1)] sameText_text[OF assms(1)] sameText_boolean[OF assms(1)]
      sameText_number[OF assms(1) sh] sameText_date[OF assms(1) sh]
      sameText_enum[OF assms(1) sh] assms(1)
    by simp
qed

lemma sameText_addFilters:
  "list_all2 sameShape fs gs \<Longrightarrow> sameText w w' \<Longrightarrow>
     rel_sum (=) sameText (addFilters num w fs) (addFilters num' w' gs)"
proof (induction fs gs arbitrary: w w' rule: list_all2_induct)
  case Nil
  then show ?case by simp
next
  case (Cons f fs g gs)
  from sameText_addFilter[OF Cons.prems Cons.hyps(1), of num num'] Cons.IH
  show ?case
    by (cases "addFilter num w f"; cases "addFilter num' w' g"; simp)
qed

lemma sameText_baseClause: "sameText (baseClause org) (baseClause org')"
  by (simp add: baseClause_def sameText_intros)

lemma addSearch_form:
  "addSearch w srch =
     (if hasWords srch then
        Prisma_sql searchTemplate
          [Sql w,
           Val (JString (Array_join '' | ''
             (map (\<lambda>word. word @ '':* | '' @ word)
               (filter (\<lambda>w. w \<noteq> []) (split_ws (trim (the srch)))))))]
      else w)"
proof (cases srch)
  case None
  then show ?thesis by (simp add: addSearch_def hasWords_def)
next
  case (Some s)
  have "s = [] \<Longrightarrow> \<not> hasWord s" by (simp add: hasWord_def)
  with Some words_iff[of s] show ?thesis
    by (auto simp: addSearch_def hasWords_def Let_def)
qed

lemma sameText_addSearch:
  assumes "sameText w w'" "hasWords srch = hasWords srch'"
  shows "sameText (addSearch w srch) (addSearch w' srch')"
  unfolding addSearch_form[of w srch] addSearch_form[of w' srch']
  using assms by (simp add: searchTemplate_def sameText_intros)

lemma condition_not_throws: "conditionOf num f = Some c \<Longrightarrow> \<not> enumThrows f"
  by (auto simp add: conditionOf_def enumThrows_def comparisonTable_def)

lemma sqlValues_Text: "sqlValues (Text s # q) = sqlValues q"
  by simp

lemma condition_step:
  assumes "conditionOf num f = Some (cmp, rest)"
  shows "\<exists>w'. addFilter num w f = Inr w'
            \<and> sqlStrings w' = sqlStrings (w @ Text ('' AND '' @ columnText f @ cmp) # rest)
            \<and> sqlValues w' = sqlValues w @ sqlValues rest"
proof -
  from addFilter_compiled[OF condition_not_throws[OF assms], of num w] obtain w' where
    r: "addFilter num w f = Inr w'" and s: "sameSql w' (compiled num w f)" by blast
  have c: "compiled num w f = w @ Text ('' AND '' @ columnText f @ cmp) # rest"
    by (simp add: compiled_def assms)
  from s have "sqlStrings w' = sqlStrings (w @ Text ('' AND '' @ columnText f @ cmp) # rest)"
    and "sqlValues w' = sqlValues w @ sqlValues rest"
    unfolding sameSql_def c sqlValues_append sqlValues_Text by simp_all
  with r show ?thesis by blast
qed

text \<open>
  C1 (amended).  The values of the filters, the organization id and the search text enter
  the generated \<open>Sql\<close> only as bound parameters: two compilations whose filter lists agree
  on names, types, operators and the shape of the values, and whose searches both have or
  both lack a word, yield the same raw text (the same \<open>strings\<close> array), or both throw.
  The field name is not covered.  For every filter that has a condition, the step, and
  \<open>generateWhereClause\<close> for a list that ends with the filter, return the clause followed
  by the raw text \<open>AND column comparison\<close> and the bound values of the condition, where
  the column is the filter's name, verbatim, between \<open>a."\<close> and \<open>"\<close> (inside \<open>DATE( )\<close>
  for \<open>is\<close> and \<open>isNot\<close> on a date).
\<close>

theorem filter_values_only_bound:
  \<open>(list_all2 sameShape fs gs \<and> hasWords srch = hasWords srch' \<longrightarrow>
       map_sum id sqlStrings (generateWhereClause num org srch fs)
         = map_sum id sqlStrings (generateWhereClause num' org' srch' gs))
   \<and> (\<forall>cmp rest. conditionOf num f = Some (cmp, rest) \<longrightarrow>
         (\<exists>w'. addFilter num w f = Inr w'
            \<and> sqlStrings w' = sqlStrings (w @ Text ('' AND '' @ columnText f @ cmp) # rest)
            \<and> sqlValues w' = sqlValues w @ sqlValues rest))
   \<and> (\<forall>cmp rest. conditionOf num f = Some (cmp, rest)
                   \<and> generateWhereClause num org srch fs = Inr w \<longrightarrow>
         (\<exists>w'. generateWhereClause num org srch (fs @ [f]) = Inr w'
            \<and> sqlStrings w' = sqlStrings (w @ Text ('' AND '' @ columnText f @ cmp) # rest)
            \<and> sqlValues w' = sqlValues w @ sqlValues rest))
   \<and> columnText f
       = (if type f = ''date'' \<and> (operator f = ''is'' \<or> operator f = ''isNot'')
          then ''DATE(a."'' @ filter.name f @ ''")''
          else ''a."'' @ filter.name f @ ''"'')\<close>
proof -
  have 1: "list_all2 sameShape fs gs \<and> hasWords srch = hasWords srch' \<longrightarrow>
       map_sum id sqlStrings (generateWhereClause num org srch fs)
         = map_sum id sqlStrings (generateWhereClause num' org' srch' gs)"
  proof
    assume h: "list_all2 sameShape fs gs \<and> hasWords srch = hasWords srch'"
    then have h1: "list_all2 sameShape fs gs" and h2: "hasWords srch = hasWords srch'"
      by simp_all
    have "sameText (addSearch (baseClause org) srch) (addSearch (baseClause org') srch')"
      using sameText_baseClause h2 by (rule sameText_addSearch)
    from sameText_addFilters[OF h1 this, of num num']
    show "map_sum id sqlStrings (generateWhereClause num org srch fs)
         = map_sum id sqlStrings (generateWhereClause num' org' srch' gs)"
      unfolding generateWhereClause_def
      by (cases "addFilters num (addSearch (baseClause org) srch) fs";
          cases "addFilters num' (addSearch (baseClause org') srch') gs";
          simp add: sameText_strings)
  qed
  have 2: "\<forall>cmp rest. conditionOf num f = Some (cmp, rest) \<longrightarrow>
         (\<exists>w'. addFilter num w f = Inr w'
            \<and> sqlStrings w' = sqlStrings (w @ Text ('' AND '' @ columnText f @ cmp) # rest)
            \<and> sqlValues w' = sqlValues w @ sqlValues rest)"
    using condition_step by blast
  have 3: "\<forall>cmp rest. conditionOf num f = Some (cmp, rest)
                   \<and> generateWhereClause num org srch fs = Inr w \<longrightarrow>
         (\<exists>w'. generateWhereClause num org srch (fs @ [f]) = Inr w'
            \<and> sqlStrings w' = sqlStrings (w @ Text ('' AND '' @ columnText f @ cmp) # rest)
            \<and> sqlValues w' = sqlValues w @ sqlValues rest)"
  proof (intro allI impI)
    fix cmp rest
    assume h: "conditionOf num f = Some (cmp, rest)
                   \<and> generateWhereClause num org srch fs = Inr w"
    then have g: "generateWhereClause num org srch (fs @ [f]) = addFilter num w f"
      by (simp add: generateWhereClause_def addFilters_append split: sum.splits)
    from h condition_step[of num f cmp rest w]
    show "\<exists>w'. generateWhereClause num org srch (fs @ [f]) = Inr w'
            \<and> sqlStrings w' = sqlStrings (w @ Text ('' AND '' @ columnText f @ cmp) # rest)
            \<and> sqlValues w' = sqlValues w @ sqlValues rest"
      unfolding g by blast
  qed
  have 4: \<open>columnText f
       = (if type f = ''date'' \<and> (operator f = ''is'' \<or> operator f = ''isNot'')
          then ''DATE(a."'' @ filter.name f @ ''")''
          else ''a."'' @ filter.name f @ ''"'')\<close>
    by (rule columnText_def)
  show ?thesis by (intro conjI) (fact 1, fact 2, fact 3, fact 4)
qed

theorem filter_values_only_bound_witness:
  \<open>list_all2 sameShape
      [\<lparr>filter.name = ''id'', type = ''string'', operator = ''is'', val = JString ''a1''\<rparr>]
      [\<lparr>filter.name = ''id'', type = ''string'', operator = ''is'',
         val = (JString ''x' OR 1=1 --'' :: string jsval)\<rparr>]
   \<and> hasWords (Some ''red'') = hasWords (Some ''blue bike'')
   \<and> map_sum id sqlStrings (generateWhereClause (\<lambda>s::string. s) ''org1'' (Some ''red'')
        [\<lparr>filter.name = ''id'', type = ''string'', operator = ''is'', val = JString ''a1''\<rparr>])
     = map_sum id sqlStrings (generateWhereClause (\<lambda>s::string. s) ''org2'' (Some ''blue bike'')
        [\<lparr>filter.name = ''id'', type = ''string'', operator = ''is'',
           val = JString ''x' OR 1=1 --''\<rparr>])
   \<and> conditionOf (\<lambda>s::string. s)
        \<lparr>filter.name = ''createdAt'', type = ''date'', operator = ''is'',
          val = JString ''2024-01-01''\<rparr>
       = Some ('' = '', [Param (JString ''2024-01-01'')])
   \<and> generateWhereClause (\<lambda>s::string. s) ''org1'' None [] = Inr (baseClause ''org1'')
   \<and> (\<exists>w'. generateWhereClause (\<lambda>s::string. s) ''org1'' None
              ([] @ [\<lparr>filter.name = ''createdAt'', type = ''date'', operator = ''is'',
                       val = JString ''2024-01-01''\<rparr>]) = Inr w'
          \<and> sqlStrings w'
              = [''WHERE a."organizationId" = '', '' AND DATE(a."createdAt") = '', []]
          \<and> sqlValues w' = [JString ''org1'', JString ''2024-01-01''])\<close>
proof -
  let ?f = \<open>\<lparr>filter.name = ''createdAt'', type = ''date'', operator = ''is'',
              val = (JString ''2024-01-01'' :: string jsval)\<rparr>\<close>
  have a: \<open>list_all2 sameShape
      [\<lparr>filter.name = ''id'', type = ''string'', operator = ''is'', val = JString ''a1''\<rparr>]
      [\<lparr>filter.name = ''id'', type = ''string'', operator = ''is'',
         val = (JString ''x' OR 1=1 --'' :: string jsval)\<rparr>]\<close>
    by (simp add: sameShape_def shape_def)
  have b: "hasWords (Some ''red'') = hasWords (Some ''blue bike'')"
    by (simp add: hasWords_def hasWord_def isSpace_def)
  from filter_values_only_bound[where num = "\<lambda>s::string. s" and org = "''org1''"
      and num' = "\<lambda>s::string. s" and org' = "''org2''", THEN conjunct1, THEN mp,
      OF conjI, OF a b]
  have e: \<open>map_sum id sqlStrings (generateWhereClause (\<lambda>s::string. s) ''org1'' (Some ''red'')
        [\<lparr>filter.name = ''id'', type = ''string'', operator = ''is'', val = JString ''a1''\<rparr>])
     = map_sum id sqlStrings (generateWhereClause (\<lambda>s::string. s) ''org2'' (Some ''blue bike'')
        [\<lparr>filter.name = ''id'', type = ''string'', operator = ''is'',
           val = JString ''x' OR 1=1 --''\<rparr>])\<close> .
  have c: \<open>conditionOf (\<lambda>s::string. s) ?f = Some ('' = '', [Param (JString ''2024-01-01'')])\<close>
    by (simp add: conditionOf_def comparisonTable_def)
  have g: "generateWhereClause (\<lambda>s::string. s) ''org1'' None []
             = Inr (baseClause ''org1'' :: string sql)"
    by (simp add: generateWhereClause_def addSearch_def)
  note T = filter_values_only_bound[where num = "\<lambda>s::string. s" and org = "''org1''"
      and srch = None and fs = "[]" and f = ?f and w = "baseClause ''org1''"]
  from T[THEN conjunct2, THEN conjunct2, THEN conjunct1, THEN spec, THEN spec, THEN mp,
      OF conjI, OF c g]
  obtain w' where r: "generateWhereClause (\<lambda>s::string. s) ''org1'' None ([] @ [?f]) = Inr w'"
    and s1: \<open>sqlStrings w'
       = sqlStrings ((baseClause ''org1'' :: string sql)
                       @ Text ('' AND '' @ columnText ?f @ '' = '')
                       # [Param (JString ''2024-01-01'')])\<close>
    and s2: "sqlValues w'
       = sqlValues (baseClause ''org1'' :: string sql) @ sqlValues [Param (JString ''2024-01-01'')]"
    by blast
  from s1 T[THEN conjunct2, THEN conjunct2, THEN conjunct2]
  have s1': \<open>sqlStrings w'
              = [''WHERE a."organizationId" = '', '' AND DATE(a."createdAt") = '', []]\<close>
    by (simp add: baseClause_def)
  from s2 have s2': "sqlValues w' = [JString ''org1'', JString ''2024-01-01'']"
    by (simp add: baseClause_def)
  from r s1' s2'
  have ex: \<open>\<exists>w'. generateWhereClause (\<lambda>s::string. s) ''org1'' None ([] @ [?f]) = Inr w'
          \<and> sqlStrings w'
              = [''WHERE a."organizationId" = '', '' AND DATE(a."createdAt") = '', []]
          \<and> sqlValues w' = [JString ''org1'', JString ''2024-01-01'']\<close>
    by blast
  show ?thesis
    by (intro conjI) (fact a, fact b, fact e, fact c, fact g, fact ex)
qed

text \<open>
  C1 as stated fails on the field name: it is not among the bound parameters, it is part
  of the raw text, verbatim.
\<close>

theorem field_name_raw_counterexample:
  \<open>map_sum id sqlStrings (generateWhereClause (\<lambda>s::string. s) ''org1'' None
      [\<lparr>filter.name = ''id" IS NOT NULL OR a."id'', type = ''string'', operator = ''is'',
        val = JString ''a1''\<rparr>])
     = Inr [''WHERE a."organizationId" = '', '' AND a."id" IS NOT NULL OR a."id" = '', []]
   \<and> map_sum id sqlValues (generateWhereClause (\<lambda>s::string. s) ''org1'' None
      [\<lparr>filter.name = ''id" IS NOT NULL OR a."id'', type = ''string'', operator = ''is'',
        val = JString ''a1''\<rparr>])
     = Inr [JString ''org1'', JString ''a1'']\<close>
  by (simp add: generateWhereClause_def addSearch_def addFilter_def addStringFilter_def
      baseClause_def Prisma_raw_def)

section \<open>Properties of the sort compiler\<close>

lemma sortStep_contributes:
  "sortStep st field =
     \<lparr>orderByParts = orderByParts st @ partsOf field,
      customFieldSortings = sortState.customFieldSortings st @ sortingsOf field,
      warnings = warnings st @ warningsOf field\<rparr>"
  by (simp add: sortStep_def partsOf_def sortingsOf_def warningsOf_def Let_def)

lemma foldl_sortStep:
  "foldl sortStep st flds =
     \<lparr>orderByParts = orderByParts st @ concat (map partsOf flds),
      customFieldSortings = sortState.customFieldSortings st @ concat (map sortingsOf flds),
      warnings = warnings st @ concat (map warningsOf flds)\<rparr>"
proof (induction flds arbitrary: st)
  case Nil
  then show ?case by simp
next
  case (Cons f flds)
  show ?case
    by (simp only: foldl_Cons Cons.IH, subst (1 2 3) sortStep_contributes) simp
qed

lemma parseSortingOptions_eq:
  "parseSortingOptions sortBy =
     (\<lparr>orderByClause =
         (if concat (map (partsOf \<circ> parseSortField) sortBy) = [] then []
          else ''ORDER BY '' @ Array_join '', '' (concat (map (partsOf \<circ> parseSortField) sortBy))),
       customFieldSortings = concat (map (sortingsOf \<circ> parseSortField) sortBy)\<rparr>,
      concat (map (warningsOf \<circ> parseSortField) sortBy))"
  by (simp add: parseSortingOptions_def foldl_sortStep Let_def)

lemma take2_D: "take 2 xs = [a, b] \<Longrightarrow> \<exists>r. xs = a # b # r"
proof -
  assume h: "take 2 xs = [a, b]"
  then obtain x xs' where 1: "xs = x # xs'" by (cases xs) auto
  with h obtain y r where 2: "xs' = y # r" by (cases xs') (auto simp: numeral_2_eq_2)
  with 1 h show ?thesis by (simp add: numeral_2_eq_2)
qed

lemma take3_D: "take 3 xs = [a, b, c] \<Longrightarrow> \<exists>r. xs = a # b # c # r"
proof -
  assume h: "take 3 xs = [a, b, c]"
  then obtain x xs' where 1: "xs = x # xs'" by (cases xs) auto
  with h obtain y ys where 2: "xs' = y # ys" by (cases xs') (auto simp: numeral_3_eq_3)
  with 1 h obtain z r where 3: "ys = z # r" by (cases ys) (auto simp: numeral_3_eq_3)
  with 1 2 h show ?thesis by (simp add: numeral_3_eq_3)
qed

lemma parseSortField_two:
  assumes "take 2 (String_split (CHR '':'') e) = [n, d]"
  shows "sortField.name (parseSortField e) = n \<and> direction (parseSortField e) = Some d"
proof -
  from take2_D[OF assms] obtain r where "String_split (CHR '':'') e = n # d # r" by blast
  then show ?thesis by (cases r) (simp_all add: parseSortField_def)
qed

lemma parseSortField_three:
  assumes "take 3 (String_split (CHR '':'') e) = [n, d, t]"
  shows "parseSortField e
           = \<lparr>sortField.name = n, direction = Some d, sortField.fieldType = Some t\<rparr>"
proof -
  from take3_D[OF assms] obtain r where "String_split (CHR '':'') e = n # d # t # r" by blast
  then show ?thesis by (simp add: parseSortField_def)
qed

lemma partsOf_direct:
  assumes "map_of directAssetFields (sortField.name field) = Some col"
  shows "partsOf field = [[CHR 0x22] @ col @ [CHR 0x22] @ '' '' @ templateString (direction field)]"
  using assms
  by (simp add: partsOf_def sortStep_def in_directAssetFields_def get_directAssetFields_def
      templateString_def Let_def)

lemma table_keys_not_cf:
  "\<forall>k \<in> set (map fst (directAssetFields @ Object_prototype)). \<not> startsWith k ''cf_''"
  by (simp add: directAssetFields_def Object_prototype_def startsWith_def)

lemma cf_not_inherited: "startsWith n ''cf_'' \<Longrightarrow> \<not> in_directAssetFields n"
proof
  assume s: "startsWith n ''cf_''" and i: "in_directAssetFields n"
  then obtain v where "map_of (directAssetFields @ Object_prototype) n = Some v"
    unfolding in_directAssetFields_def by blast
  then have "(n, v) \<in> set (directAssetFields @ Object_prototype)" by (rule map_of_SomeD)
  then have "n \<in> set (map fst (directAssetFields @ Object_prototype))" by force
  with table_keys_not_cf s show False by blast
qed

lemma relations_not_inherited:
  "\<not> in_directAssetFields ''kit''" "\<not> in_directAssetFields ''category''"
  "\<not> in_directAssetFields ''location''" "\<not> in_directAssetFields ''custody''"
  by (simp_all add: in_directAssetFields_def directAssetFields_def Object_prototype_def)

lemma partsOf_relations:
  \<open>sortField.name field = ''kit''
     \<Longrightarrow> partsOf field = [''"kitName" '' @ templateString (direction field)]\<close>
  \<open>sortField.name field = ''category''
     \<Longrightarrow> partsOf field = [''"categoryName" '' @ templateString (direction field)]\<close>
  \<open>sortField.name field = ''location''
     \<Longrightarrow> partsOf field = [''"locationName" '' @ templateString (direction field)]\<close>
  \<open>sortField.name field = ''custody''
     \<Longrightarrow> partsOf field = [''custody->>'name' '' @ templateString (direction field)]\<close>
  by (simp_all add: partsOf_def sortStep_def relations_not_inherited)

lemma cf_not_relation:
  "startsWith n ''cf_'' \<Longrightarrow>
     n \<noteq> ''kit'' \<and> n \<noteq> ''category'' \<and> n \<noteq> ''location'' \<and> n \<noteq> ''custody''"
  by (auto simp: startsWith_def)

lemma sortStep_cf:
  assumes "startsWith (sortField.name field) ''cf_''"
  shows "partsOf field
           = [''cf_'' @ replace_ws (drop 3 (sortField.name field)) @ '' ''
                @ templateString (direction field)]"
    and "sortingsOf field
           = [\<lparr>customFieldSorting.name = drop 3 (sortField.name field), valueKey = ''raw'',
                alias' = ''cf_'' @ replace_ws (drop 3 (sortField.name field)),
                fieldType = sortField.fieldType field\<rparr>]"
  using assms cf_not_inherited[OF assms] cf_not_relation[OF assms]
  by (simp_all add: partsOf_def sortingsOf_def sortStep_def Let_def)

lemma Array_join_Cons_Cons:
  "Array_join sep ((x # y) # ys) = x # Array_join sep (y # ys)"
  by (cases ys) simp_all

lemma replace_ws_join: "replace_ws s = Array_join ''_'' (split_ws s)"
proof (induction s rule: split_ws.induct)
  case 1
  then show ?case by simp
next
  case (2 x xs)
  show ?case
  proof (cases "isSpace x")
    case True
    obtain y ys where "split_ws (dropWhile isSpace xs) = y # ys"
      using split_ws_nonempty[of "dropWhile isSpace xs"]
      by (cases "split_ws (dropWhile isSpace xs)") auto
    with True 2(1) show ?thesis by simp
  next
    case False
    obtain y ys where "split_ws xs = y # ys"
      using split_ws_nonempty[of xs] by (cases "split_ws xs") auto
    with False 2(2) show ?thesis by (simp add: Array_join_Cons_Cons)
  qed
qed

lemma unknown_warned:
  assumes "\<not> in_directAssetFields (sortField.name field)"
    "sortField.name field \<notin> set [''kit'', ''category'', ''location'', ''custody'']"
    "\<not> startsWith (sortField.name field) ''cf_''"
  shows "partsOf field = [] \<and> sortingsOf field = []
       \<and> warningsOf field = [''Unknown sort field: '' @ sortField.name field]"
  using assms by (simp add: partsOf_def sortingsOf_def warningsOf_def sortStep_def)

lemma sqlText_joined:
  "length qs = Suc n \<Longrightarrow>
     sqlText (Prisma_sql (s0 # replicate n sep @ [s1]) (map Sql qs))
       = s0 @ Array_join sep (map sqlText qs) @ s1"
proof (induction qs arbitrary: n s0)
  case Nil
  then show ?case by simp
next
  case (Cons q qs)
  show ?case
  proof (cases qs)
    case Nil
    with Cons.prems show ?thesis by (simp add: sql_simps)
  next
    case (Cons q' r)
    with Cons.prems obtain m where n: "n = Suc m" and len: "length qs = Suc m" by (cases n) auto
    from Cons.IH[OF len, of sep] Cons n show ?thesis by (simp add: sql_simps)
  qed
qed

lemma sqlValues_joined:
  "length qs = Suc n \<Longrightarrow>
     sqlValues (Prisma_sql (s0 # replicate n sep @ [s1]) (map Sql qs))
       = concat (map sqlValues qs)"
proof (induction qs arbitrary: n s0)
  case Nil
  then show ?case by simp
next
  case (Cons q qs)
  show ?case
  proof (cases qs)
    case Nil
    with Cons.prems show ?thesis by (simp add: sql_simps)
  next
    case (Cons q' r)
    with Cons.prems obtain m where n: "n = Suc m" and len: "length qs = Suc m" by (cases n) auto
    from Cons.IH[OF len, of sep] Cons n show ?thesis by (simp add: sql_simps)
  qed
qed

lemma customFieldSubquery_strings:
  \<open>sqlStrings (customFieldSubquery cf :: 'n sql)
     = [''(\<newline>''
        @ ''      SELECT \<newline>''
        @ ''        CASE '',
        ''\<newline>''
        @ ''          WHEN 'DATE' THEN \<newline>''
        @ ''            (acfv.value->>'valueDate')::timestamp::text\<newline>''
        @ ''          WHEN 'NUMBER' THEN \<newline>''
        @ ''            (acfv.value->>'raw')::numeric::text\<newline>''
        @ ''          WHEN 'BOOLEAN' THEN \<newline>''
        @ ''            (acfv.value->>'valueBoolean')::boolean::text\<newline>''
        @ ''          ELSE\<newline>''
        @ ''            acfv.value->>'raw'\<newline>''
        @ ''        END\<newline>''
        @ ''      FROM public."AssetCustomFieldValue" acfv\<newline>''
        @ ''      JOIN public."CustomField" cf ON acfv."customFieldId" = cf.id\<newline>''
        @ ''      WHERE acfv."assetId" = a.id AND cf.name = '',
        ''\<newline>''
        @ ''    ) AS '' @ alias' cf]\<close>
  by (simp add: customFieldSubquery_def customFieldTemplate_def Prisma_raw_def)

lemma customFieldSubquery_literal:
  \<open>sqlText (customFieldSubquery cf :: 'n sql)
     = ''(\<newline>''
        @ ''      SELECT \<newline>''
        @ ''        CASE ''
        @ ''?'' @ ''\<newline>''
        @ ''          WHEN 'DATE' THEN \<newline>''
        @ ''            (acfv.value->>'valueDate')::timestamp::text\<newline>''
        @ ''          WHEN 'NUMBER' THEN \<newline>''
        @ ''            (acfv.value->>'raw')::numeric::text\<newline>''
        @ ''          WHEN 'BOOLEAN' THEN \<newline>''
        @ ''            (acfv.value->>'valueBoolean')::boolean::text\<newline>''
        @ ''          ELSE\<newline>''
        @ ''            acfv.value->>'raw'\<newline>''
        @ ''        END\<newline>''
        @ ''      FROM public."AssetCustomFieldValue" acfv\<newline>''
        @ ''      JOIN public."CustomField" cf ON acfv."customFieldId" = cf.id\<newline>''
        @ ''      WHERE acfv."assetId" = a.id AND cf.name = ''
        @ ''?'' @ ''\<newline>''
        @ ''    ) AS '' @ alias' cf\<close>
  by (simp add: customFieldSubquery_def customFieldTemplate_def sql_simps)

lemma sqlStrings_snoc_empty: "sqlStrings (q @ [Text []]) = sqlStrings q"
  using sqlStrings_nonempty[of q] by (simp add: sqlStrings_append)

lemma generateCustomFieldSelect_strings:
  assumes "cfs \<noteq> []"
  shows "\<exists>r :: 'n sql. generateCustomFieldSelect cfs = Inr r
     \<and> sqlStrings r
         = sqlStrings (Text '', '' # commaJoin '','' (map (\<lambda>cf. customFieldSubquery cf :: 'n sql) cfs))"
proof -
  let ?cj = "commaJoin '','' (map (\<lambda>cf. customFieldSubquery cf :: 'n sql) cfs)"
  have ne: "map (\<lambda>cf. Sql (customFieldSubquery cf :: 'n sql)) cfs \<noteq> []"
    using assms by simp
  have j: "Prisma_join (map (\<lambda>cf. Sql (customFieldSubquery cf :: 'n sql)) cfs)
         = Inr (Text [] # ?cj @ [Text []])"
    using Prisma_join_eq[OF ne] by (simp add: comp_def)
  have g: "generateCustomFieldSelect cfs
         = Inr (Text '', '' # (Text [] # ?cj @ [Text []]) @ [Text []] :: 'n sql)"
    using assms j by (simp add: generateCustomFieldSelect_def)
  have "sqlStrings (Text '', '' # (Text [] # ?cj @ [Text []]) @ [Text []])
      = sqlStrings ((Text '', '' # Text [] # ?cj @ [Text []]) @ [Text []])" by simp
  also have "\<dots> = sqlStrings (Text '', '' # Text [] # ?cj @ [Text []])"
    by (rule sqlStrings_snoc_empty)
  also have "\<dots> = sqlStrings ((Text '', '' # Text [] # ?cj) @ [Text []])" by simp
  also have "\<dots> = sqlStrings (Text '', '' # Text [] # ?cj)"
    by (rule sqlStrings_snoc_empty)
  also have "\<dots> = sqlStrings (Text '', '' # ?cj)"
    using sqlStrings_nonempty[of ?cj] by (cases "sqlStrings ?cj") simp_all
  finally show ?thesis using g by blast
qed

lemma customFieldSubquery_values:
  "sqlValues (customFieldSubquery cf :: 'n sql) = subqueryValues cf"
  by (simp add: customFieldSubquery_def customFieldTemplate_def subqueryValues_def sql_simps)

lemma generateCustomFieldSelect_empty:
  "generateCustomFieldSelect [] = Inr Prisma_empty"
  by (simp add: generateCustomFieldSelect_def)

lemma generateCustomFieldSelect_nonempty:
  assumes "cfs \<noteq> []"
  shows "\<exists>r :: 'n sql. generateCustomFieldSelect cfs = Inr r
     \<and> sqlText r = '', '' @ Array_join '','' (map (\<lambda>cf. sqlText (customFieldSubquery cf :: 'n sql)) cfs)
     \<and> sqlValues r = concat (map subqueryValues cfs)"
proof -
  let ?qs = "map (\<lambda>cf. customFieldSubquery cf :: 'n sql) cfs"
  let ?j = "Prisma_sql ([] # replicate (length cfs - 1) '','' @ [[]]) (map Sql ?qs) :: 'n sql"
  from assms have len: "length ?qs = Suc (length cfs - 1)" by (cases cfs) auto
  have j: "Prisma_join (map (\<lambda>cf. Sql (customFieldSubquery cf :: 'n sql)) cfs) = Inr ?j"
    using assms by (simp add: Prisma_join_def comp_def)
  have g: "generateCustomFieldSelect cfs = Inr (Prisma_sql ['', '', ''''] [Sql ?j])"
    using assms j by (simp add: generateCustomFieldSelect_def)
  have t: "sqlText ?j = Array_join '','' (map sqlText ?qs)"
    using sqlText_joined[OF len, of "[]" "'',''" "[]"] by simp
  have v: "sqlValues ?j = concat (map sqlValues ?qs)"
    using sqlValues_joined[OF len, of "[]" "'',''" "[]"] by simp
  show ?thesis
    using g t v by (simp add: sql_simps comp_def customFieldSubquery_values)
qed

lemma subqueryValues_nonempty: "cfs \<noteq> [] \<Longrightarrow> concat (map subqueryValues cfs) \<noteq> []"
  by (cases cfs) (simp_all add: subqueryValues_def)

text \<open>
  C6.  An entry whose first two parts, split on \<open>":"\<close>, are a direct asset field and a
  direction contributes the part made of the field's aliased column, in double quotes,
  and the direction; the alias table is fixed.  The names \<open>kit\<close>, \<open>category\<close>,
  \<open>location\<close> and \<open>custody\<close> contribute \<open>"kitName"\<close>, \<open>"categoryName"\<close>, \<open>"locationName"\<close>
  and \<open>custody->>'name'\<close> with the direction.  The returned \<open>orderByClause\<close> is empty when no
  entry contributed a part, and otherwise \<open>ORDER BY\<close> followed by the parts of all entries,
  in input order, joined by a comma and a space.
\<close>

theorem orderByClause_of_columns:
  \<open>orderByClause (fst (parseSortingOptions sortBy))
     = (if concat (map (partsOf \<circ> parseSortField) sortBy) = [] then []
        else ''ORDER BY ''
             @ Array_join '', '' (concat (map (partsOf \<circ> parseSortField) sortBy)))
   \<and> directAssetFields
       = [(''id'', ''assetId''), (''name'', ''assetTitle''), (''valuation'', ''assetValue''),
          (''status'', ''assetStatus''), (''description'', ''assetDescription''),
          (''createdAt'', ''assetCreatedAt''), (''availableToBook'', ''assetAvailableToBook'')]
   \<and> (take 2 (String_split (CHR '':'') e) = [n, d] \<and> map_of directAssetFields n = Some col
        \<longrightarrow> partsOf (parseSortField e) = [''"'' @ col @ ''" '' @ d])
   \<and> (take 2 (String_split (CHR '':'') e) = [''kit'', d]
        \<longrightarrow> partsOf (parseSortField e) = [''"kitName" '' @ d])
   \<and> (take 2 (String_split (CHR '':'') e) = [''category'', d]
        \<longrightarrow> partsOf (parseSortField e) = [''"categoryName" '' @ d])
   \<and> (take 2 (String_split (CHR '':'') e) = [''location'', d]
        \<longrightarrow> partsOf (parseSortField e) = [''"locationName" '' @ d])
   \<and> (take 2 (String_split (CHR '':'') e) = [''custody'', d]
        \<longrightarrow> partsOf (parseSortField e) = [''custody->>'name' '' @ d])\<close>
proof -
  have direct: \<open>partsOf (parseSortField e) = [''"'' @ col @ ''" '' @ d]\<close>
    if "take 2 (String_split (CHR '':'') e) = [n, d]" "map_of directAssetFields n = Some col"
    for n d col
    using parseSortField_two[OF that(1)] that(2) partsOf_direct[of "parseSortField e" col]
    by (simp add: templateString_def)
  have rel: "sortField.name (parseSortField e) = n \<and> templateString (direction (parseSortField e)) = d"
    if "take 2 (String_split (CHR '':'') e) = [n, d]" for n d
    using parseSortField_two[OF that] by (simp add: templateString_def)
  show ?thesis
    using direct rel partsOf_relations[of "parseSortField e"]
    by (simp add: parseSortingOptions_eq directAssetFields_def)
qed

theorem orderByClause_of_columns_witness:
  \<open>take 2 (String_split (CHR '':'') ''name:asc'') = [''name'', ''asc'']
   \<and> map_of directAssetFields ''name'' = Some ''assetTitle''
   \<and> partsOf (parseSortField ''name:asc'') = [''"assetTitle" asc'']
   \<and> take 2 (String_split (CHR '':'') ''kit:desc'') = [''kit'', ''desc'']
   \<and> partsOf (parseSortField ''kit:desc'') = [''"kitName" desc'']
   \<and> orderByClause (fst (parseSortingOptions [''name:asc'', ''kit:desc'']))
       = ''ORDER BY "assetTitle" asc, "kitName" desc''\<close>
proof -
  have s1: "take 2 (String_split (CHR '':'') ''name:asc'') = [''name'', ''asc'']"
    by simp
  have m1: "map_of directAssetFields ''name'' = Some ''assetTitle''"
    by (simp add: directAssetFields_def)
  have s2: "take 2 (String_split (CHR '':'') ''kit:desc'') = [''kit'', ''desc'']"
    by simp
  have p1: \<open>partsOf (parseSortField ''name:asc'') = [''"assetTitle" asc'']\<close>
    using orderByClause_of_columns[of _ "''name:asc''" "''name''" "''asc''" "''assetTitle''"]
      s1 m1 by simp
  have p2: \<open>partsOf (parseSortField ''kit:desc'') = [''"kitName" desc'']\<close>
    using orderByClause_of_columns[of _ "''kit:desc''" _ "''desc''"] s2 by simp
  have o: \<open>orderByClause (fst (parseSortingOptions [''name:asc'', ''kit:desc'']))
       = ''ORDER BY "assetTitle" asc, "kitName" desc''\<close>
    using orderByClause_of_columns[of "[''name:asc'', ''kit:desc'']"] p1 p2 by simp
  show ?thesis using s1 m1 s2 p1 p2 o by simp
qed

text \<open>
  C5.  An entry \<open>cf_X:dir:ftype\<close> contributes the custom-field sorting record with name
  \<open>X\<close>, value key \<open>raw\<close>, alias \<open>cf_\<close> followed by \<open>X\<close> with every run of white space
  replaced by \<open>_\<close>, and field type \<open>ftype\<close>, and it contributes the ORDER BY part made
  of the alias and \<open>dir\<close>; the returned \<open>customFieldSortings\<close> are the records of all
  entries in input order.  \<open>generateCustomFieldSelect\<close> always returns; it returns
  \<open>Prisma.empty\<close> on the empty list and only then an object with the strings and values of
  \<open>Prisma.empty\<close>; otherwise its text is \<open>", "\<close> and the subqueries of the records, one
  per record, separated by commas.  The subquery of a record is the correlated \<open>SELECT\<close>
  written out below: a \<open>CASE\<close> over the bound field type that casts \<open>valueDate\<close> to a
  timestamp for \<open>DATE\<close>, \<open>raw\<close> to a numeric for \<open>NUMBER\<close>, \<open>valueBoolean\<close> to a boolean
  for \<open>BOOLEAN\<close> and reads \<open>raw\<close> otherwise, from the custom field values of the asset
  whose custom field has the bound name, and after \<open>AS\<close> the record's alias.
\<close>

theorem custom_field_sorting:
  \<open>(take 3 (String_split (CHR '':'') e) = [''cf_'' @ X, dir, ft]
      \<longrightarrow> sortingsOf (parseSortField e)
            = [\<lparr>customFieldSorting.name = X, valueKey = ''raw'',
                 alias' = ''cf_'' @ replace_ws X, fieldType = Some ft\<rparr>]
          \<and> partsOf (parseSortField e) = [''cf_'' @ replace_ws X @ '' '' @ dir])
   \<and> replace_ws X = Array_join ''_'' (split_ws X)
   \<and> sortingOptions.customFieldSortings (fst (parseSortingOptions sortBy))
       = concat (map (sortingsOf \<circ> parseSortField) sortBy)
   \<and> generateCustomFieldSelect [] = Inr (Prisma_empty :: 'n sql)
   \<and> (\<exists>r :: 'n sql. generateCustomFieldSelect cfs = Inr r
        \<and> (sqlStrings r = sqlStrings (Prisma_empty :: 'n sql)
             \<and> sqlValues r = sqlValues (Prisma_empty :: 'n sql) \<longleftrightarrow> cfs = [])
        \<and> (cfs \<noteq> [] \<longrightarrow>
              sqlText r = '', '' @ Array_join '',''
                            (map (\<lambda>cf. sqlText (customFieldSubquery cf :: 'n sql)) cfs)
              \<and> sqlStrings r
                  = sqlStrings (Text '', '' # commaJoin '',''
                                  (map (\<lambda>cf. customFieldSubquery cf :: 'n sql) cfs))
              \<and> sqlValues r = concat (map subqueryValues cfs)))
   \<and> sqlStrings (customFieldSubquery cf :: 'n sql)
       = [''(\<newline>''
          @ ''      SELECT \<newline>''
          @ ''        CASE '',
          ''\<newline>''
          @ ''          WHEN 'DATE' THEN \<newline>''
          @ ''            (acfv.value->>'valueDate')::timestamp::text\<newline>''
          @ ''          WHEN 'NUMBER' THEN \<newline>''
          @ ''            (acfv.value->>'raw')::numeric::text\<newline>''
          @ ''          WHEN 'BOOLEAN' THEN \<newline>''
          @ ''            (acfv.value->>'valueBoolean')::boolean::text\<newline>''
          @ ''          ELSE\<newline>''
          @ ''            acfv.value->>'raw'\<newline>''
          @ ''        END\<newline>''
          @ ''      FROM public."AssetCustomFieldValue" acfv\<newline>''
          @ ''      JOIN public."CustomField" cf ON acfv."customFieldId" = cf.id\<newline>''
          @ ''      WHERE acfv."assetId" = a.id AND cf.name = '',
          ''\<newline>''
          @ ''    ) AS '' @ alias' cf]
   \<and> sqlText (customFieldSubquery cf :: 'n sql)
       = ''(\<newline>''
          @ ''      SELECT \<newline>''
          @ ''        CASE ''
          @ ''?'' @ ''\<newline>''
          @ ''          WHEN 'DATE' THEN \<newline>''
          @ ''            (acfv.value->>'valueDate')::timestamp::text\<newline>''
          @ ''          WHEN 'NUMBER' THEN \<newline>''
          @ ''            (acfv.value->>'raw')::numeric::text\<newline>''
          @ ''          WHEN 'BOOLEAN' THEN \<newline>''
          @ ''            (acfv.value->>'valueBoolean')::boolean::text\<newline>''
          @ ''          ELSE\<newline>''
          @ ''            acfv.value->>'raw'\<newline>''
          @ ''        END\<newline>''
          @ ''      FROM public."AssetCustomFieldValue" acfv\<newline>''
          @ ''      JOIN public."CustomField" cf ON acfv."customFieldId" = cf.id\<newline>''
          @ ''      WHERE acfv."assetId" = a.id AND cf.name = ''
          @ ''?'' @ ''\<newline>''
          @ ''    ) AS '' @ alias' cf
   \<and> sqlValues (customFieldSubquery cf :: 'n sql) = subqueryValues cf\<close>
proof -
  have c1: \<open>take 3 (String_split (CHR '':'') e) = [''cf_'' @ X, dir, ft]
      \<longrightarrow> sortingsOf (parseSortField e)
            = [\<lparr>customFieldSorting.name = X, valueKey = ''raw'',
                 alias' = ''cf_'' @ replace_ws X, fieldType = Some ft\<rparr>]
          \<and> partsOf (parseSortField e) = [''cf_'' @ replace_ws X @ '' '' @ dir]\<close>
  proof
    assume h: "take 3 (String_split (CHR '':'') e) = [''cf_'' @ X, dir, ft]"
    have p: "parseSortField e
           = \<lparr>sortField.name = ''cf_'' @ X, direction = Some dir, sortField.fieldType = Some ft\<rparr>"
      by (rule parseSortField_three[OF h])
    have st: "startsWith (sortField.name (parseSortField e)) ''cf_''"
      unfolding p by (simp add: startsWith_def)
    have d: "drop 3 (sortField.name (parseSortField e)) = X"
      unfolding p by simp
    have t: "templateString (direction (parseSortField e)) = dir"
      unfolding p by (simp add: templateString_def)
    have f: "sortField.fieldType (parseSortField e) = Some ft"
      unfolding p by simp
    from sortStep_cf[OF st] show \<open>sortingsOf (parseSortField e)
            = [\<lparr>customFieldSorting.name = X, valueKey = ''raw'',
                 alias' = ''cf_'' @ replace_ws X, fieldType = Some ft\<rparr>]
          \<and> partsOf (parseSortField e) = [''cf_'' @ replace_ws X @ '' '' @ dir]\<close>
      unfolding d t f by simp
  qed
  have c2: "replace_ws X = Array_join ''_'' (split_ws X)"
    by (rule replace_ws_join)
  have c3: "sortingOptions.customFieldSortings (fst (parseSortingOptions sortBy))
       = concat (map (sortingsOf \<circ> parseSortField) sortBy)"
    by (simp add: parseSortingOptions_eq)
  have c4: "generateCustomFieldSelect [] = Inr (Prisma_empty :: 'n sql)"
    by (rule generateCustomFieldSelect_empty)
  have c5: "\<exists>r :: 'n sql. generateCustomFieldSelect cfs = Inr r
        \<and> (sqlStrings r = sqlStrings (Prisma_empty :: 'n sql)
             \<and> sqlValues r = sqlValues (Prisma_empty :: 'n sql) \<longleftrightarrow> cfs = [])
        \<and> (cfs \<noteq> [] \<longrightarrow>
              sqlText r = '', '' @ Array_join '',''
                            (map (\<lambda>cf. sqlText (customFieldSubquery cf :: 'n sql)) cfs)
              \<and> sqlStrings r
                  = sqlStrings (Text '', '' # commaJoin '',''
                                  (map (\<lambda>cf. customFieldSubquery cf :: 'n sql) cfs))
              \<and> sqlValues r = concat (map subqueryValues cfs))"
  proof (cases "cfs = []")
    case True
    then show ?thesis by (simp add: generateCustomFieldSelect_empty)
  next
    case False
    from generateCustomFieldSelect_nonempty[OF False] obtain r :: "'n sql" where
      r: "generateCustomFieldSelect cfs = Inr r"
        "sqlText r = '', '' @ Array_join '',''
                            (map (\<lambda>cf. sqlText (customFieldSubquery cf :: 'n sql)) cfs)"
        "sqlValues r = concat (map subqueryValues cfs)"
      by blast
    from generateCustomFieldSelect_strings[OF False] obtain r' :: "'n sql" where
      r': "generateCustomFieldSelect cfs = Inr r'"
        "sqlStrings r'
           = sqlStrings (Text '', '' # commaJoin '',''
                           (map (\<lambda>cf. customFieldSubquery cf :: 'n sql) cfs))"
      by blast
    from r(1) r'(1) have "r' = r" by simp
    with r'(2) have rs: "sqlStrings r
                  = sqlStrings (Text '', '' # commaJoin '',''
                                  (map (\<lambda>cf. customFieldSubquery cf :: 'n sql) cfs))"
      by simp
    have "sqlValues r \<noteq> sqlValues (Prisma_empty :: 'n sql)"
      using r(3) subqueryValues_nonempty[OF False, where 'a = 'n]
      by (simp add: Prisma_empty_def Prisma_raw_def)
    with r rs False show ?thesis by blast
  qed
  have c6: \<open>sqlStrings (customFieldSubquery cf :: 'n sql)
       = [''(\<newline>''
          @ ''      SELECT \<newline>''
          @ ''        CASE '',
          ''\<newline>''
          @ ''          WHEN 'DATE' THEN \<newline>''
          @ ''            (acfv.value->>'valueDate')::timestamp::text\<newline>''
          @ ''          WHEN 'NUMBER' THEN \<newline>''
          @ ''            (acfv.value->>'raw')::numeric::text\<newline>''
          @ ''          WHEN 'BOOLEAN' THEN \<newline>''
          @ ''            (acfv.value->>'valueBoolean')::boolean::text\<newline>''
          @ ''          ELSE\<newline>''
          @ ''            acfv.value->>'raw'\<newline>''
          @ ''        END\<newline>''
          @ ''      FROM public."AssetCustomFieldValue" acfv\<newline>''
          @ ''      JOIN public."CustomField" cf ON acfv."customFieldId" = cf.id\<newline>''
          @ ''      WHERE acfv."assetId" = a.id AND cf.name = '',
          ''\<newline>''
          @ ''    ) AS '' @ alias' cf]\<close>
    by (rule customFieldSubquery_strings)
  have c6': \<open>sqlText (customFieldSubquery cf :: 'n sql)
       = ''(\<newline>''
          @ ''      SELECT \<newline>''
          @ ''        CASE ''
          @ ''?'' @ ''\<newline>''
          @ ''          WHEN 'DATE' THEN \<newline>''
          @ ''            (acfv.value->>'valueDate')::timestamp::text\<newline>''
          @ ''          WHEN 'NUMBER' THEN \<newline>''
          @ ''            (acfv.value->>'raw')::numeric::text\<newline>''
          @ ''          WHEN 'BOOLEAN' THEN \<newline>''
          @ ''            (acfv.value->>'valueBoolean')::boolean::text\<newline>''
          @ ''          ELSE\<newline>''
          @ ''            acfv.value->>'raw'\<newline>''
          @ ''        END\<newline>''
          @ ''      FROM public."AssetCustomFieldValue" acfv\<newline>''
          @ ''      JOIN public."CustomField" cf ON acfv."customFieldId" = cf.id\<newline>''
          @ ''      WHERE acfv."assetId" = a.id AND cf.name = ''
          @ ''?'' @ ''\<newline>''
          @ ''    ) AS '' @ alias' cf\<close>
    by (rule customFieldSubquery_literal)
  have c7: "sqlValues (customFieldSubquery cf :: 'n sql) = subqueryValues cf"
    by (rule customFieldSubquery_values)
  show ?thesis
    by (intro conjI) (fact c1, fact c2, fact c3, fact c4, fact c5, fact c6, fact c6', fact c7)
qed

theorem custom_field_sorting_witness:
  \<open>take 3 (String_split (CHR '':'') ''cf_Serial  number:desc:TEXT'')
     = [''cf_'' @ ''Serial  number'', ''desc'', ''TEXT'']
   \<and> sortingsOf (parseSortField ''cf_Serial  number:desc:TEXT'')
       = [\<lparr>customFieldSorting.name = ''Serial  number'', valueKey = ''raw'',
            alias' = ''cf_Serial_number'', fieldType = Some ''TEXT''\<rparr>]
   \<and> partsOf (parseSortField ''cf_Serial  number:desc:TEXT'') = [''cf_Serial_number desc'']
   \<and> [\<lparr>customFieldSorting.name = ''Serial  number'', valueKey = ''raw'',
          alias' = ''cf_Serial_number'', fieldType = Some ''TEXT''\<rparr>] \<noteq> []
   \<and> (\<exists>r :: string sql.
        generateCustomFieldSelect
          [\<lparr>customFieldSorting.name = ''Serial  number'', valueKey = ''raw'',
             alias' = ''cf_Serial_number'', fieldType = Some ''TEXT''\<rparr>] = Inr r
        \<and> sqlStrings r
            = ['', '' @ ''(\<newline>''
                @ ''      SELECT \<newline>''
                @ ''        CASE '',
              ''\<newline>''
                @ ''          WHEN 'DATE' THEN \<newline>''
                @ ''            (acfv.value->>'valueDate')::timestamp::text\<newline>''
                @ ''          WHEN 'NUMBER' THEN \<newline>''
                @ ''            (acfv.value->>'raw')::numeric::text\<newline>''
                @ ''          WHEN 'BOOLEAN' THEN \<newline>''
                @ ''            (acfv.value->>'valueBoolean')::boolean::text\<newline>''
                @ ''          ELSE\<newline>''
                @ ''            acfv.value->>'raw'\<newline>''
                @ ''        END\<newline>''
                @ ''      FROM public."AssetCustomFieldValue" acfv\<newline>''
                @ ''      JOIN public."CustomField" cf ON acfv."customFieldId" = cf.id\<newline>''
                @ ''      WHERE acfv."assetId" = a.id AND cf.name = '',
              ''\<newline>''
                @ ''    ) AS '' @ ''cf_Serial_number'']
        \<and> sqlValues r = [JString ''TEXT'', JString ''Serial  number''])\<close>
proof -
  let ?cf = \<open>\<lparr>customFieldSorting.name = ''Serial  number'', valueKey = ''raw'',
             alias' = ''cf_Serial_number'', fieldType = Some ''TEXT''\<rparr>\<close>
  note T = custom_field_sorting[where e = "''cf_Serial  number:desc:TEXT''"
        and X = "''Serial  number''" and dir = "''desc''" and ft = "''TEXT''"
        and cfs = "[?cf]" and cf = ?cf and 'n = string]
  have s: \<open>take 3 (String_split (CHR '':'') ''cf_Serial  number:desc:TEXT'')
     = [''cf_'' @ ''Serial  number'', ''desc'', ''TEXT'']\<close>
    by simp
  have rw: "replace_ws ''Serial  number'' = ''Serial_number''"
    by (simp add: isSpace_def)
  from T[THEN conjunct1, THEN mp, OF s]
  have e1: \<open>sortingsOf (parseSortField ''cf_Serial  number:desc:TEXT'') = [?cf]\<close>
    and e2: \<open>partsOf (parseSortField ''cf_Serial  number:desc:TEXT'') = [''cf_Serial_number desc'']\<close>
    unfolding rw by simp_all
  have ne: "[?cf] \<noteq> []" by simp
  from T[THEN conjunct2, THEN conjunct2, THEN conjunct2, THEN conjunct2, THEN conjunct1]
  obtain r :: "string sql" where r: "generateCustomFieldSelect [?cf] = Inr r"
    and v: "[?cf] \<noteq> [] \<longrightarrow>
              sqlText r = '', '' @ Array_join '',''
                            (map (\<lambda>cf. sqlText (customFieldSubquery cf :: string sql)) [?cf])
              \<and> sqlStrings r
                  = sqlStrings (Text '', '' # commaJoin '',''
                                  (map (\<lambda>cf. customFieldSubquery cf :: string sql) [?cf]))
              \<and> sqlValues r = concat (map subqueryValues [?cf])"
    by blast
  from v[THEN mp, OF ne]
  have t0: "sqlStrings r
              = sqlStrings (Text '', '' # commaJoin '',''
                              (map (\<lambda>cf. customFieldSubquery cf :: string sql) [?cf]))"
    and v0: "sqlValues r = concat (map subqueryValues [?cf])"
    by simp_all
  note q = T[THEN conjunct2, THEN conjunct2, THEN conjunct2, THEN conjunct2, THEN conjunct2,
      THEN conjunct1]
  have t1: "sqlStrings r = sqlStrings (Text '', '' # (customFieldSubquery ?cf :: string sql))"
    unfolding t0 by simp
  have t': \<open>sqlStrings r
            = ['', '' @ ''(\<newline>''
                @ ''      SELECT \<newline>''
                @ ''        CASE '',
              ''\<newline>''
                @ ''          WHEN 'DATE' THEN \<newline>''
                @ ''            (acfv.value->>'valueDate')::timestamp::text\<newline>''
                @ ''          WHEN 'NUMBER' THEN \<newline>''
                @ ''            (acfv.value->>'raw')::numeric::text\<newline>''
                @ ''          WHEN 'BOOLEAN' THEN \<newline>''
                @ ''            (acfv.value->>'valueBoolean')::boolean::text\<newline>''
                @ ''          ELSE\<newline>''
                @ ''            acfv.value->>'raw'\<newline>''
                @ ''        END\<newline>''
                @ ''      FROM public."AssetCustomFieldValue" acfv\<newline>''
                @ ''      JOIN public."CustomField" cf ON acfv."customFieldId" = cf.id\<newline>''
                @ ''      WHERE acfv."assetId" = a.id AND cf.name = '',
              ''\<newline>''
                @ ''    ) AS '' @ ''cf_Serial_number'']\<close>
    unfolding t1 sqlStrings.simps q by simp
  from v0 have v': "sqlValues r = [JString ''TEXT'', JString ''Serial  number'']"
    by (simp add: subqueryValues_def)
  from r t' v' have ex: \<open>\<exists>r :: string sql. generateCustomFieldSelect [?cf] = Inr r
        \<and> sqlStrings r
            = ['', '' @ ''(\<newline>''
                @ ''      SELECT \<newline>''
                @ ''        CASE '',
              ''\<newline>''
                @ ''          WHEN 'DATE' THEN \<newline>''
                @ ''            (acfv.value->>'valueDate')::timestamp::text\<newline>''
                @ ''          WHEN 'NUMBER' THEN \<newline>''
                @ ''            (acfv.value->>'raw')::numeric::text\<newline>''
                @ ''          WHEN 'BOOLEAN' THEN \<newline>''
                @ ''            (acfv.value->>'valueBoolean')::boolean::text\<newline>''
                @ ''          ELSE\<newline>''
                @ ''            acfv.value->>'raw'\<newline>''
                @ ''        END\<newline>''
                @ ''      FROM public."AssetCustomFieldValue" acfv\<newline>''
                @ ''      JOIN public."CustomField" cf ON acfv."customFieldId" = cf.id\<newline>''
                @ ''      WHERE acfv."assetId" = a.id AND cf.name = '',
              ''\<newline>''
                @ ''    ) AS '' @ ''cf_Serial_number'']
        \<and> sqlValues r = [JString ''TEXT'', JString ''Serial  number'']\<close>
    by blast
  show ?thesis
    by (intro conjI) (fact s, fact e1, fact e2, fact ne, fact ex)
qed

lemma toString_inherited:
  "in_directAssetFields ''toString''"
  "get_directAssetFields ''toString'' = ''function toString() { [native code] }''"
  "map_of directAssetFields ''toString'' = None"
  by (simp_all add: in_directAssetFields_def get_directAssetFields_def directAssetFields_def
      Object_prototype_def templateString_def)

lemma parse_toString:
  "parseSortField ''toString:asc''
     = \<lparr>sortField.name = ''toString'', direction = Some ''asc'', sortField.fieldType = None\<rparr>"
  by (simp add: parseSortField_def)

text \<open>
  C2, at the entry \<open>toString:asc\<close>.  \<open>toString\<close> is none of the seven direct asset fields,
  none of the four relation names and does not start with \<open>cf_\<close>; but
  \<open>"toString" in directAssetFields\<close> holds through \<open>Object.prototype\<close>, so the entry is
  taken for a direct field: no warning is written and a part is added to the clause.
\<close>

theorem inherited_name_not_warned:
  \<open>parseSortingOptions [''toString:asc'']
     = (\<lparr>orderByClause = ''ORDER BY "function toString() { [native code] }" asc'',
         customFieldSortings = []\<rparr>, [])
   \<and> parseSortingOptions [] = (\<lparr>orderByClause = [], customFieldSortings = []\<rparr>, [])
   \<and> map_of directAssetFields ''toString'' = None\<close>
proof -
  have st: \<open>sortStep \<lparr>orderByParts = [], customFieldSortings = [], warnings = []\<rparr>
              (parseSortField ''toString:asc'')
        = \<lparr>orderByParts = [''"function toString() { [native code] }" asc''],
            customFieldSortings = [], warnings = []\<rparr>\<close>
    unfolding parse_toString
    by (simp add: sortStep_def toString_inherited templateString_def)
  have a: \<open>parseSortingOptions [''toString:asc'']
     = (\<lparr>orderByClause = ''ORDER BY "function toString() { [native code] }" asc'',
         customFieldSortings = []\<rparr>, [])\<close>
    by (simp add: parseSortingOptions_def st)
  have b: "parseSortingOptions [] = (\<lparr>orderByClause = [], customFieldSortings = []\<rparr>, [])"
    by (simp add: parseSortingOptions_def)
  show ?thesis using a b toString_inherited(3) by simp
qed

section \<open>Properties of the filter parser\<close>

lemma String_split_unfold:
  "String_split c s =
     takeWhile (\<lambda>x. x \<noteq> c) s
       # (if c \<in> set s then String_split c (drop 1 (dropWhile (\<lambda>x. x \<noteq> c) s)) else [])"
  by (induction s) (auto split: list.splits)

lemma split_operator:
  "(case String_split (CHR '':'') v of [] \<Rightarrow> [] | p # ps \<Rightarrow> p) = operatorOf v"
  by (subst String_split_unfold) (simp add: operatorOf_def)

lemma split_value:
  "(case String_split (CHR '':'') v of p # q # qs \<Rightarrow> Some q | _ \<Rightarrow> None) = valueTextOf v"
proof (cases "CHR '':'' \<in> set v")
  case True
  have "String_split (CHR '':'') v
      = takeWhile (\<lambda>x. x \<noteq> CHR '':'') v
        # String_split (CHR '':'') (drop 1 (dropWhile (\<lambda>x. x \<noteq> CHR '':'') v))"
    using True by (subst String_split_unfold) simp
  also have "String_split (CHR '':'') (drop 1 (dropWhile (\<lambda>x. x \<noteq> CHR '':'') v))
      = takeWhile (\<lambda>x. x \<noteq> CHR '':'') (drop 1 (dropWhile (\<lambda>x. x \<noteq> CHR '':'') v))
        # (if CHR '':'' \<in> set (drop 1 (dropWhile (\<lambda>x. x \<noteq> CHR '':'') v))
           then String_split (CHR '':'')
                  (drop 1 (dropWhile (\<lambda>x. x \<noteq> CHR '':'')
                     (drop 1 (dropWhile (\<lambda>x. x \<noteq> CHR '':'') v))))
           else [])"
    by (rule String_split_unfold)
  finally show ?thesis using True by (simp add: valueTextOf_def)
next
  case False
  then have "String_split (CHR '':'') v = [takeWhile (\<lambda>x. x \<noteq> CHR '':'') v]"
    by (subst String_split_unfold) simp
  with False show ?thesis by (simp add: valueTextOf_def)
qed

lemma parseFilter_unfold:
  "parseFilter Number kv =
     (case parseFilterValue Number (fst kv) (operatorOf (snd kv)) (valueTextOf (snd kv)) of
        Inl e \<Rightarrow> Inl e
      | Inr v \<Rightarrow>
          Inr \<lparr>filter.name = fst kv, type = getFilterFieldType (fst kv),
               operator = operatorOf (snd kv), val = v\<rparr>)"
  by (simp add: parseFilter_def Let_def split_operator split_value split: sum.splits)

lemma getFilterFieldType_table:
  "getFilterFieldType k = (case map_of fieldTypeTable k of None \<Rightarrow> ''string'' | Some t \<Rightarrow> t)"
  by (simp add: getFilterFieldType_def fieldTypeTable_def)

lemma no_colon_operator:
  "valueTextOf v = None \<Longrightarrow> operatorOf v = v"
  by (auto simp: valueTextOf_def operatorOf_def split: if_splits)

lemma valueTextOf_None_iff: "valueTextOf v = None \<longleftrightarrow> \<not> list_ex (\<lambda>c. c = CHR '':'') v"
  by (auto simp: valueTextOf_def list_ex_iff)

lemma operator_between_colon:
  "operatorOf v = ''between'' \<Longrightarrow> v = ''between'' \<Longrightarrow> valueTextOf v = None"
  by (simp add: valueTextOf_def)

lemma literal_between: "valueTextOf ''between'' = None" "operatorOf ''between'' = ''between''"
  by (simp_all add: valueTextOf_def operatorOf_def)

lemma literal_in: "valueTextOf ''in'' = None" "operatorOf ''in'' = ''in''"
  by (simp_all add: valueTextOf_def operatorOf_def)

lemma parseFilterValue_spec:
  "parseFilterValue Number k (operatorOf v) (valueTextOf v) =
     (if throwsOn (k, v) then Inl TypeError
      else Inr (specValue Number k (operatorOf v) (valueTextOf v)))"
proof -
  let ?op = "operatorOf v" and ?vt = "valueTextOf v"
  have A: "?vt = None \<Longrightarrow> ?op = v" by (rule no_colon_operator)
  have N: "?vt = None \<longleftrightarrow> \<not> list_ex (\<lambda>c. c = CHR '':'') v" by (rule valueTextOf_None_iff)
  consider (val) "k = ''valuation''" | (avail) "k = ''availableToBook''"
    | (created) "k = ''createdAt''" | (status) "k = ''status''"
    | (other) "k \<noteq> ''valuation''" "k \<noteq> ''availableToBook''" "k \<noteq> ''createdAt''"
        "k \<noteq> ''status''"
    by blast
  then show ?thesis
  proof cases
    case val
    show ?thesis
    proof (cases ?vt)
      case None
      with A have "?op = v" by simp
      with None val show ?thesis
        by (simp add: parseFilterValue_def throwsOn_def specValue_def)
    next
      case (Some t)
      then have "v \<noteq> ''between''" using literal_between(1) by auto
      with Some val show ?thesis
        by (simp add: parseFilterValue_def throwsOn_def specValue_def)
    qed
  next
    case avail
    show ?thesis
    proof (cases ?vt)
      case None
      with N avail show ?thesis
        by (simp add: parseFilterValue_def throwsOn_def)
    next
      case (Some t)
      with N have "list_ex (\<lambda>c. c = CHR '':'') v" by simp
      with Some avail show ?thesis
        by (simp add: parseFilterValue_def throwsOn_def specValue_def)
    qed
  next
    case created
    show ?thesis
    proof (cases ?vt)
      case None
      with A have "?op = v" by simp
      with None created show ?thesis
        by (simp add: parseFilterValue_def throwsOn_def specValue_def)
    next
      case (Some t)
      then have "v \<noteq> ''between''" using literal_between(1) by auto
      with Some created show ?thesis
        by (simp add: parseFilterValue_def throwsOn_def specValue_def)
    qed
  next
    case status
    show ?thesis
    proof (cases ?vt)
      case None
      with A have "?op = v" by simp
      with None status show ?thesis
        by (simp add: parseFilterValue_def throwsOn_def specValue_def)
    next
      case (Some t)
      then have "v \<noteq> ''in''" using literal_in(1) by auto
      with Some status show ?thesis
        by (simp add: parseFilterValue_def throwsOn_def specValue_def)
    qed
  next
    case other
    then show ?thesis
      by (simp add: parseFilterValue_def throwsOn_def specValue_def)
  qed
qed

lemma parseFilter_spec:
  "parseFilter Number kv = (if throwsOn kv then Inl TypeError else Inr (specFilter Number kv))"
  using parseFilterValue_spec[of Number "fst kv" "snd kv"]
  by (simp add: parseFilter_unfold specFilter_def getFilterFieldType_table)

lemma parseFilter_forEach_spec:
  "parseFilter_forEach Number acc kvs =
     (if list_ex throwsOn kvs then Inl TypeError
      else Inr (acc @ map (specFilter Number) kvs))"
  by (induction kvs arbitrary: acc) (simp_all add: parseFilter_spec)




text \<open>
  C4 (amended).  On every filters string none of whose parameters makes
  \<open>parseFilterValue\<close> call a method of \<open>undefined\<close>, \<open>parseFilters\<close> returns one filter per
  query-string parameter, in order: its name is the key, its operator the text before
  the first \<open>":"\<close> of the value, its type is given by the fixed mapping, and its value is
  parsed per field, as the specification words it, from the text between the first and
  the second \<open>":"\<close> (which is undefined when the value has no \<open>":"\<close>).
\<close>

theorem parseFilters_decodes:
  assumes "\<not> list_ex throwsOn (URLSearchParams s)"
  shows "parseFilters URLSearchParams Number s
           = Inr (map (specFilter Number) (URLSearchParams s))"
  using assms by (simp add: parseFilters_def Let_def parseFilter_forEach_spec)

lemma params_example:
  "plainSearchParams ''status=in:AVAILABLE,IN_CUSTODY&valuation=gt:100&availableToBook=is:True''
     = [(''status'', ''in:AVAILABLE,IN_CUSTODY''), (''valuation'', ''gt:100''),
        (''availableToBook'', ''is:True'')]"
  by (simp add: plainSearchParams_def)

lemma lower_True: "toLowerCase ''True'' = ''true''"
  by code_simp

lemma specFilter_examples:
  "specFilter (\<lambda>v. case v of JString t \<Rightarrow> t | _ \<Rightarrow> ''NaN'') (''status'', ''in:AVAILABLE,IN_CUSTODY'')
     = \<lparr>filter.name = ''status'', type = ''enum'', operator = ''in'',
        val = JArray [JString ''AVAILABLE'', JString ''IN_CUSTODY'']\<rparr>"
  "specFilter (\<lambda>v. case v of JString t \<Rightarrow> t | _ \<Rightarrow> ''NaN'') (''valuation'', ''gt:100'')
     = \<lparr>filter.name = ''valuation'', type = ''number'', operator = ''gt'',
        val = JNumber ''100''\<rparr>"
  "specFilter (\<lambda>v. case v of JString t \<Rightarrow> t | _ \<Rightarrow> ''NaN'') (''availableToBook'', ''is:True'')
     = \<lparr>filter.name = ''availableToBook'', type = ''boolean'', operator = ''is'',
        val = JBoolean True\<rparr>"
  by (simp_all add: specFilter_def specValue_def operatorOf_def valueTextOf_def
      fieldTypeTable_def jsOfString_def lower_True)

theorem parseFilters_decodes_witness:
  "\<not> list_ex throwsOn
       (plainSearchParams ''status=in:AVAILABLE,IN_CUSTODY&valuation=gt:100&availableToBook=is:True'')
   \<and> parseFilters plainSearchParams (\<lambda>v. case v of JString t \<Rightarrow> t | _ \<Rightarrow> ''NaN'')
        ''status=in:AVAILABLE,IN_CUSTODY&valuation=gt:100&availableToBook=is:True''
       = Inr [\<lparr>filter.name = ''status'', type = ''enum'', operator = ''in'',
                val = JArray [JString ''AVAILABLE'', JString ''IN_CUSTODY'']\<rparr>,
              \<lparr>filter.name = ''valuation'', type = ''number'', operator = ''gt'',
                val = JNumber ''100''\<rparr>,
              \<lparr>filter.name = ''availableToBook'', type = ''boolean'', operator = ''is'',
                val = JBoolean True\<rparr>]"
proof -
  have h: "\<not> list_ex throwsOn
       (plainSearchParams ''status=in:AVAILABLE,IN_CUSTODY&valuation=gt:100&availableToBook=is:True'')"
    unfolding params_example by (simp add: throwsOn_def)
  from parseFilters_decodes[where URLSearchParams = plainSearchParams
      and s = "''status=in:AVAILABLE,IN_CUSTODY&valuation=gt:100&availableToBook=is:True''"
      and Number = "\<lambda>v. case v of JString t \<Rightarrow> t | _ \<Rightarrow> ''NaN''", OF h]
  have "parseFilters plainSearchParams (\<lambda>v. case v of JString t \<Rightarrow> t | _ \<Rightarrow> ''NaN'')
        ''status=in:AVAILABLE,IN_CUSTODY&valuation=gt:100&availableToBook=is:True''
       = Inr [\<lparr>filter.name = ''status'', type = ''enum'', operator = ''in'',
                val = JArray [JString ''AVAILABLE'', JString ''IN_CUSTODY'']\<rparr>,
              \<lparr>filter.name = ''valuation'', type = ''number'', operator = ''gt'',
                val = JNumber ''100''\<rparr>,
              \<lparr>filter.name = ''availableToBook'', type = ''boolean'', operator = ''is'',
                val = JBoolean True\<rparr>]"
    unfolding params_example by (simp add: specFilter_examples)
  with h show ?thesis by (rule conjI)
qed

text \<open>
  C4 as stated fails on \<open>availableToBook=true\<close>: the value has no \<open>":"\<close>, the filter value
  is undefined and \<open>value.toLowerCase()\<close> throws, so no filter list is returned.
\<close>

theorem parseFilters_throws_counterexample:
  "parseFilters plainSearchParams (\<lambda>v. case v of JString t \<Rightarrow> t | _ \<Rightarrow> ''NaN'')
     ''availableToBook=true'' = Inl TypeError"
proof -
  have p: "plainSearchParams ''availableToBook=true'' = [(''availableToBook'', ''true'')]"
    by (simp add: plainSearchParams_def)
  show ?thesis
    unfolding parseFilters_def Let_def p
    by (simp add: parseFilter_def parseFilterValue_def)
qed




section \<open>Properties of the where input\<close>

lemma whereCategories_uncategorized:
  assumes "categoriesIds pv = Some cats" "''uncategorized'' \<in> set cats"
  shows "whereCategories pv w = w\<lparr>OR := Some [CategoryIdIn cats, CategoryIdNull]\<rparr>"
proof -
  from assms(2) have "cats \<noteq> []" by auto
  with assms show ?thesis by (simp add: whereCategories_def)
qed

lemma whereTags_untagged:
  assumes "tagsIds pv = Some tgs" "''untagged'' \<in> set tgs"
  shows "whereTags pv w = w\<lparr>OR := Some (OR_or_empty w @ [TagsSomeIdIn tgs, TagsNone])\<rparr>"
proof -
  from assms(2) have "tgs \<noteq> []" by auto
  with assms show ?thesis by (simp add: whereTags_def)
qed

lemma whereLocations_OR:
  "OR (whereLocations pv w) =
     (if locationAlts pv = [] then OR w else Some (OR_or_empty w @ locationAlts pv))"
  by (auto simp: whereLocations_def locationAlts_def list_ex_iff split: option.splits)

lemma whereTeamMembers_OR:
  "OR (whereTeamMembers pv w) =
     (if custodyAlts pv = [] then OR w else Some (OR_or_empty w @ custodyAlts pv))"
  by (auto simp: whereTeamMembers_def custodyAlts_def list_ex_iff split: option.splits)

lemma whereLocations_fields:
  "categoryId (whereLocations pv w) = categoryId w" "tags (whereLocations pv w) = tags w"
  by (simp_all add: whereLocations_def split: option.splits)

lemma whereTeamMembers_fields:
  "categoryId (whereTeamMembers pv w) = categoryId w" "tags (whereTeamMembers pv w) = tags w"
  by (simp_all add: whereTeamMembers_def split: option.splits)

lemma whereSearch_fields:
  "categoryId (whereSearch pv w) = categoryId w" "tags (whereSearch pv w) = tags w"
  "OR (whereSearch pv w) = OR w"
  by (simp_all add: whereSearch_def split: option.splits)

lemma whereStatus_fields:
  "categoryId (whereStatus st w) = categoryId w" "tags (whereStatus st w) = tags w"
  "OR (whereStatus st w) = OR w"
  by (simp_all add: whereStatus_def split: option.splits)

lemma OR_after_groups:
  assumes "OR w = Some alts"
  shows "OR (whereTeamMembers pv (whereLocations pv w))
           = Some (alts @ locationAlts pv @ custodyAlts pv)"
  using assms
  by (simp add: whereTeamMembers_OR whereLocations_OR OR_or_empty_def)

text \<open>
  C9.  When \<open>categoriesIds\<close> contains \<open>uncategorized\<close> and \<open>tagsIds\<close> contains \<open>untagged\<close>,
  the where input has one \<open>OR\<close> array: the two category alternatives, then the two tag
  alternatives, then the location alternatives (if \<open>without-location\<close> was asked for) and
  the custody alternatives (if team members were given), side by side; no separate
  \<open>categoryId\<close> or \<open>tags\<close> condition is set.  So an asset that satisfies a single one of
  these alternatives satisfies the \<open>OR\<close>.  The category block replaces whatever \<open>OR\<close> the
  where input had, while the tag block extends it.
\<close>

theorem getAssetsWhereInput_flattens:
  assumes "csp \<noteq> []"
    and "categoriesIds (getParamsValues (URLSearchParams csp)) = Some cats"
    and "''uncategorized'' \<in> set cats"
    and "tagsIds (getParamsValues (URLSearchParams csp)) = Some tgs"
    and "''untagged'' \<in> set tgs"
  shows "OR (getAssetsWhereInput URLSearchParams getParamsValues orgId (Some csp))
           = Some ([CategoryIdIn cats, CategoryIdNull] @ [TagsSomeIdIn tgs, TagsNone]
                   @ locationAlts (getParamsValues (URLSearchParams csp))
                   @ custodyAlts (getParamsValues (URLSearchParams csp)))
     \<and> categoryId (getAssetsWhereInput URLSearchParams getParamsValues orgId (Some csp)) = None
     \<and> tags (getAssetsWhereInput URLSearchParams getParamsValues orgId (Some csp)) = None
     \<and> (list_ex sat
           ([CategoryIdIn cats, CategoryIdNull] @ [TagsSomeIdIn tgs, TagsNone]
            @ custodyAlts (getParamsValues (URLSearchParams csp)))
          \<longrightarrow> satisfiesOR sat
                (getAssetsWhereInput URLSearchParams getParamsValues orgId (Some csp)))
     \<and> OR (whereCategories (getParamsValues (URLSearchParams csp)) w)
           = Some [CategoryIdIn cats, CategoryIdNull]
     \<and> OR (whereTags (getParamsValues (URLSearchParams csp)) w)
           = Some (OR_or_empty w @ [TagsSomeIdIn tgs, TagsNone])"
proof -
  let ?pv = "getParamsValues (URLSearchParams csp)"
  let ?st = "if map_of (URLSearchParams csp) ''status'' = Some ''ALL'' then None
             else map_of (URLSearchParams csp) ''status''"
  let ?w0 = "\<lparr>organizationId = orgId, title = None, status = None,
              categoryId = None, tags = None, location = None, OR = None\<rparr>"
  let ?w2 = "whereStatus ?st (whereSearch ?pv ?w0)"
  let ?w4 = "whereTags ?pv (whereCategories ?pv ?w2)"
  let ?r = "getAssetsWhereInput URLSearchParams getParamsValues orgId (Some csp)"
  have r: "?r = whereTeamMembers ?pv (whereLocations ?pv ?w4)"
    using assms(1) by (simp add: getAssetsWhereInput_def Let_def)
  have w2: "categoryId ?w2 = None" "tags ?w2 = None"
    by (simp_all add: whereStatus_fields whereSearch_fields)
  have c: "whereCategories ?pv ?w2 = ?w2\<lparr>OR := Some [CategoryIdIn cats, CategoryIdNull]\<rparr>"
    by (rule whereCategories_uncategorized[OF assms(2,3)])
  have t: "?w4 = (whereCategories ?pv ?w2)
                  \<lparr>OR := Some (OR_or_empty (whereCategories ?pv ?w2)
                               @ [TagsSomeIdIn tgs, TagsNone])\<rparr>"
    by (rule whereTags_untagged[OF assms(4,5)])
  have o4: "OR ?w4 = Some ([CategoryIdIn cats, CategoryIdNull] @ [TagsSomeIdIn tgs, TagsNone])"
    by (subst t, subst c) (simp add: OR_or_empty_def)
  have f4: "categoryId ?w4 = None" "tags ?w4 = None"
    by (subst t, subst c, simp add: w2)+
  have 1: "OR ?r = Some ([CategoryIdIn cats, CategoryIdNull] @ [TagsSomeIdIn tgs, TagsNone]
                   @ locationAlts ?pv @ custodyAlts ?pv)"
    unfolding r using OR_after_groups[OF o4, of ?pv] by simp
  have 2: "categoryId ?r = None" and 3: "tags ?r = None"
    unfolding r by (simp_all add: whereTeamMembers_fields whereLocations_fields f4)
  have 4: "list_ex sat
           ([CategoryIdIn cats, CategoryIdNull] @ [TagsSomeIdIn tgs, TagsNone]
            @ custodyAlts ?pv)
          \<longrightarrow> satisfiesOR sat ?r"
    unfolding satisfiesOR_def 1 by (auto simp: list_ex_iff)
  have 5: "OR (whereCategories ?pv w) = Some [CategoryIdIn cats, CategoryIdNull]"
    by (simp add: whereCategories_uncategorized[OF assms(2,3)])
  have 6: "OR (whereTags ?pv w) = Some (OR_or_empty w @ [TagsSomeIdIn tgs, TagsNone])"
    by (simp add: whereTags_untagged[OF assms(4,5)])
  show ?thesis
    by (intro conjI) (fact 1, fact 2, fact 3, fact 4, fact 5, fact 6)
qed

lemma where_example_params:
  "plainParamsValues (plainSearchParams ''category=uncategorized&tag=untagged&teamMember=tm1'')
     = \<lparr>categoriesIds = Some [''uncategorized''], locationIds = Some [],
        tagsIds = Some [''untagged''], search = None, teamMemberIds = Some [''tm1'']\<rparr>"
  by (simp add: plainParamsValues_def plainSearchParams_def)

theorem getAssetsWhereInput_flattens_witness:
  "''category=uncategorized&tag=untagged&teamMember=tm1'' \<noteq> []
   \<and> categoriesIds (plainParamsValues
         (plainSearchParams ''category=uncategorized&tag=untagged&teamMember=tm1''))
       = Some [''uncategorized'']
   \<and> tagsIds (plainParamsValues
         (plainSearchParams ''category=uncategorized&tag=untagged&teamMember=tm1''))
       = Some [''untagged'']
   \<and> OR (getAssetsWhereInput plainSearchParams plainParamsValues ''org1''
            (Some ''category=uncategorized&tag=untagged&teamMember=tm1''))
       = Some [CategoryIdIn [''uncategorized''], CategoryIdNull,
               TagsSomeIdIn [''untagged''], TagsNone,
               CustodyTeamMemberIdIn [''tm1''], CustodyCustodianUserIdIn [''tm1''],
               BookingsSomeCustodianTeamMemberIdIn [''tm1''],
               BookingsSomeCustodianUserIdIn [''tm1'']]
   \<and> satisfiesOR (\<lambda>alt. alt = TagsNone)
        (getAssetsWhereInput plainSearchParams plainParamsValues ''org1''
            (Some ''category=uncategorized&tag=untagged&teamMember=tm1''))"
proof -
  let ?csp = "''category=uncategorized&tag=untagged&teamMember=tm1''"
  have n: "?csp \<noteq> []" by simp
  have c: "categoriesIds (plainParamsValues (plainSearchParams ?csp)) = Some [''uncategorized'']"
    by (simp add: where_example_params)
  have t: "tagsIds (plainParamsValues (plainSearchParams ?csp)) = Some [''untagged'']"
    by (simp add: where_example_params)
  have cm: "''uncategorized'' \<in> set [''uncategorized'']" by simp
  have tm: "''untagged'' \<in> set [''untagged'']" by simp
  note T = getAssetsWhereInput_flattens[where URLSearchParams = plainSearchParams
      and getParamsValues = plainParamsValues and csp = ?csp and orgId = "''org1''"
      and sat = "\<lambda>alt. alt = TagsNone", OF n c cm t tm]
  have la: "locationAlts (plainParamsValues (plainSearchParams ?csp)) = []"
    by (simp add: where_example_params locationAlts_def)
  have ca: "custodyAlts (plainParamsValues (plainSearchParams ?csp))
      = [CustodyTeamMemberIdIn [''tm1''], CustodyCustodianUserIdIn [''tm1''],
         BookingsSomeCustodianTeamMemberIdIn [''tm1''],
         BookingsSomeCustodianUserIdIn [''tm1'']]"
    by (simp add: where_example_params custodyAlts_def)
  from T[THEN conjunct1]
  have o: "OR (getAssetsWhereInput plainSearchParams plainParamsValues ''org1'' (Some ?csp))
       = Some [CategoryIdIn [''uncategorized''], CategoryIdNull,
               TagsSomeIdIn [''untagged''], TagsNone,
               CustodyTeamMemberIdIn [''tm1''], CustodyCustodianUserIdIn [''tm1''],
               BookingsSomeCustodianTeamMemberIdIn [''tm1''],
               BookingsSomeCustodianUserIdIn [''tm1'']]"
    unfolding la ca by simp
  from T[THEN conjunct2, THEN conjunct2, THEN conjunct2, THEN conjunct1]
  have s: "satisfiesOR (\<lambda>alt. alt = TagsNone)
        (getAssetsWhereInput plainSearchParams plainParamsValues ''org1'' (Some ?csp))"
    by simp
  show ?thesis
    by (intro conjI) (fact n, fact c, fact t, fact o, fact s)
qed

end
